theory Spec2Isabelle
  imports Complex_Main "HOL-Library.Extended_Nat"
begin

section \<open>Data model (types.ts, constants.ts)\<close>

text \<open>
  The string-tagged unions of \<^verbatim>\<open>types.ts\<close> are datatypes: the event kinds, the overflow
  policies and the backoff strategies.
\<close>

datatype SocketEventType = EvOpen | EvClose | EvError | EvReconnect | EvReceived | EvSent | EvDropped

datatype BufferOverflowPolicy = Oldest | Newest | ErrorPolicy

datatype ReconnectBackoff = Linear | Exponential

datatype BufferType = ReceiveBuffer | SendBuffer

datatype DropReason = buffer_full | buffer_overflow | send_queue_full | send_queue_overflow

text \<open>
  A JavaScript \<^verbatim>\<open>number\<close>: a finite value, one of the two infinities, or \<^verbatim>\<open>NaN\<close>. The
  operations follow IEEE 754 on the special values, and a finite result whose magnitude
  reaches the overflow threshold of a double (\<open>2 ^ 1024 - 2 ^ 970\<close>, from where rounding to
  nearest gives an infinity) is that infinity. A finite result below the threshold is kept
  exact: rounding to 53 bits and the sign of zero are not modelled.
\<close>

datatype number = Finite real | PosInfinity | NegInfinity | NaN

definition overflow_threshold :: real where
  "overflow_threshold = 2 ^ 1024 - 2 ^ 970"

definition rounded :: "real \<Rightarrow> number" where
  "rounded x =
     (if overflow_threshold \<le> x then PosInfinity
      else if x \<le> - overflow_threshold then NegInfinity
      else Finite x)"

fun js_negate :: "number \<Rightarrow> number" where
  "js_negate (Finite x) = Finite (- x)"
| "js_negate PosInfinity = NegInfinity"
| "js_negate NegInfinity = PosInfinity"
| "js_negate NaN = NaN"

text \<open>An infinity times \<open>y\<close>: the sign follows \<open>y\<close>, and infinity times zero is \<^verbatim>\<open>NaN\<close>.\<close>

definition scaled_infinity :: "number \<Rightarrow> real \<Rightarrow> number" where
  "scaled_infinity i y = (if 0 < y then i else if y < 0 then js_negate i else NaN)"

fun js_times :: "number \<Rightarrow> number \<Rightarrow> number" where
  "js_times NaN b = NaN"
| "js_times a NaN = NaN"
| "js_times (Finite x) (Finite y) = rounded (x * y)"
| "js_times (Finite x) PosInfinity = scaled_infinity PosInfinity x"
| "js_times (Finite x) NegInfinity = scaled_infinity NegInfinity x"
| "js_times PosInfinity (Finite y) = scaled_infinity PosInfinity y"
| "js_times NegInfinity (Finite y) = scaled_infinity NegInfinity y"
| "js_times PosInfinity PosInfinity = PosInfinity"
| "js_times PosInfinity NegInfinity = NegInfinity"
| "js_times NegInfinity PosInfinity = NegInfinity"
| "js_times NegInfinity NegInfinity = PosInfinity"

fun js_plus :: "number \<Rightarrow> number \<Rightarrow> number" where
  "js_plus NaN b = NaN"
| "js_plus a NaN = NaN"
| "js_plus (Finite x) (Finite y) = rounded (x + y)"
| "js_plus PosInfinity NegInfinity = NaN"
| "js_plus NegInfinity PosInfinity = NaN"
| "js_plus PosInfinity b = PosInfinity"
| "js_plus NegInfinity b = NegInfinity"
| "js_plus a PosInfinity = PosInfinity"
| "js_plus a NegInfinity = NegInfinity"

definition js_minus :: "number \<Rightarrow> number \<Rightarrow> number" where
  "js_minus a b = js_plus a (js_negate b)"

text \<open>The comparison \<^verbatim>\<open>a < b\<close>, false whenever an operand is \<^verbatim>\<open>NaN\<close>.\<close>

fun js_less :: "number \<Rightarrow> number \<Rightarrow> bool" where
  "js_less NaN b = False"
| "js_less a NaN = False"
| "js_less (Finite x) (Finite y) = (x < y)"
| "js_less a NegInfinity = False"
| "js_less PosInfinity b = False"
| "js_less NegInfinity b = True"
| "js_less a PosInfinity = True"

text \<open>\<^verbatim>\<open>Math.min\<close> and \<^verbatim>\<open>Math.max\<close> of two arguments: \<^verbatim>\<open>NaN\<close> if either is \<^verbatim>\<open>NaN\<close>.\<close>

fun Math_min :: "number \<Rightarrow> number \<Rightarrow> number" where
  "Math_min NaN b = NaN"
| "Math_min a NaN = NaN"
| "Math_min a b = (if js_less b a then b else a)"

fun Math_max :: "number \<Rightarrow> number \<Rightarrow> number" where
  "Math_max NaN b = NaN"
| "Math_max a NaN = NaN"
| "Math_max a b = (if js_less a b then b else a)"

text \<open>\<^verbatim>\<open>Math.pow(2, n)\<close> for a count \<open>n\<close>, and a count or an array length as a number.\<close>

definition Math_pow2 :: "nat \<Rightarrow> number" where
  "Math_pow2 n = rounded (2 ^ n)"

definition of_count :: "nat \<Rightarrow> number" where
  "of_count n = Finite (real n)"

text \<open>
  Payloads. A structured value is a \<open>json\<close> tree; \<^verbatim>\<open>JSON.parse\<close> and
  \<^verbatim>\<open>JSON.stringify\<close> belong to the platform, not to the repository, and are parameters
  (\<open>parse\<close>, \<open>stringify\<close>) of the functions that call them. \<open>outgoing\<close> is the default
  \<^verbatim>\<open>Outgoing = string | object | ArrayBuffer | Blob\<close>; \<open>wire\<close> is what
  \<^verbatim>\<open>serializeMessage\<close> returns and \<^verbatim>\<open>WebSocket.send\<close> accepts; \<open>incoming\<close> is what
  \<^verbatim>\<open>parseMessage\<close> returns (the parsed value, or the raw text when parsing throws).
\<close>

datatype json = JNull | JBool bool | JNumber int | JString string
  | JArray "json list" | JObject "(string \<times> json) list"

datatype outgoing = OString string | OArrayBuffer "nat list" | OBlob "nat list" | OObject json

datatype wire = WString string | WArrayBuffer "nat list" | WBlob "nat list"

datatype incoming = Parsed json | Unparsed string

text \<open>
  The \<^verbatim>\<open>meta\<close> record of an event, one constructor per shape that the handlers build.
  \<open>ReconnectMeta attempt interval\<close> has the interval only on the scheduling emission;
  \<open>DroppedMeta reason policy droppedMessage bufferSize bufferType\<close> has
  \<open>droppedMessage = None\<close> where the source passes \<^verbatim>\<open>undefined\<close>.
\<close>

datatype EventMeta =
    NoMeta
  | CloseMeta int string bool
  | ErrorMeta string
  | ReconnectMeta nat "number option"
  | ReceivedMeta incoming
  | SentMeta outgoing
  | DroppedMeta DropReason BufferOverflowPolicy "string option" number BufferType

record SocketEvent =
  ev_type :: SocketEventType
  ts :: nat
  meta :: EventMeta

text \<open>
  \<^verbatim>\<open>NormalizedSocketOptions\<close>, flattened. \<open>attempts\<close> is an extended natural because its
  default is \<^verbatim>\<open>Infinity\<close> and it is only compared with the retry counter. The intervals and
  the buffer sizes are numbers.
\<close>

record NormalizedSocketOptions =
  reconnect_enabled :: bool
  reconnect_attempts :: enat
  reconnect_interval :: number
  reconnect_backoff :: ReconnectBackoff
  reconnect_maxInterval :: number
  receive_size :: number
  receive_overflow :: BufferOverflowPolicy
  send_size :: number
  send_overflow :: BufferOverflowPolicy

datatype ReadyState = CONNECTING | OPEN | CLOSING | CLOSED

text \<open>
  The transport is the collaborator behind \<^verbatim>\<open>new WebSocket(url)\<close>. Of a transport object
  the model keeps what the handlers read or cause: its ready state, the frames handed to
  \<^verbatim>\<open>send\<close>, and the arguments of every \<^verbatim>\<open>close\<close> call.
\<close>

record WebSocket =
  readyState :: ReadyState
  sentMessages :: "wire list"
  closeCalls :: "(int option \<times> string option) list"

definition newWebSocket :: WebSocket where
  "newWebSocket = \<lparr>readyState = CONNECTING, sentMessages = [], closeCalls = []\<rparr>"

text \<open>
  \<^verbatim>\<open>InternalSocketState\<close> as \<^verbatim>\<open>createState\<close> builds it. Objects that live on the heap are
  referred to by handle: \<open>ws\<close> is an address in the store \<open>sockets\<close>, \<open>reconnectTimer\<close> a timer id,
  \<open>abortController\<close> a controller id, callbacks and resolvers are ids kept in insertion
  order (a JavaScript \<^verbatim>\<open>Set\<close> iterates in insertion order). The iterator counters are
  integers, since \<^verbatim>\<open>--\<close> on a JavaScript number does not stop at zero.

  The rest of the record is the environment the handlers act on: every transport ever
  constructed (the addresses below \<open>nextSocket\<close>), the pending timeouts with their delays, the next fresh timer id, the
  aborted controllers, the clock read by \<^verbatim>\<open>Date.now()\<close>, and logs of the invocations of
  user callbacks and of resolvers. User callbacks are opaque: an invocation is logged, an
  exception it throws is caught by the source, and it is assumed not to call back into the
  socket.
\<close>

record World =
  ws :: "nat option"
  isManualClose :: bool
  reconnectCount :: nat
  reconnectTimer :: "nat option"
  messageBuffer :: "string list"
  eventQueue :: "SocketEvent list"
  messageQueue :: "string list"
  messageCallbacks :: "nat list"
  eventCallbacks :: "nat list"
  abortController :: "nat option"
  activeMessageIterators :: int
  activeEventIterators :: int
  messageResolvers :: "nat list"
  eventResolvers :: "nat list"
  sockets :: "nat \<Rightarrow> WebSocket"
  nextSocket :: nat
  timers :: "(nat \<times> number) list"
  nextTimer :: nat
  abortedControllers :: "nat set"
  now :: nat
  eventCallbackCalls :: "(nat \<times> SocketEvent) list"
  messageCallbackCalls :: "(nat \<times> incoming) list"
  resolverCalls :: "nat list"

definition MAX_RECENT_EVENTS :: nat where
  "MAX_RECENT_EVENTS = 10"

definition RECONNECT_JITTER_RATIO :: number where
  "RECONNECT_JITTER_RATIO = Finite (2 / 10)"

definition DEFAULT_BUFFER_SIZE :: number where
  "DEFAULT_BUFFER_SIZE = Finite 100"

definition DEFAULT_RECONNECT_INTERVAL :: number where
  "DEFAULT_RECONNECT_INTERVAL = Finite 1000"

definition DEFAULT_MAX_RECONNECT_INTERVAL :: number where
  "DEFAULT_MAX_RECONNECT_INTERVAL = Finite 30000"

section \<open>utils.ts\<close>

definition createEvent :: "SocketEventType \<Rightarrow> EventMeta \<Rightarrow> World \<Rightarrow> SocketEvent" where
  "createEvent t m w = \<lparr>ev_type = t, ts = now w, meta = m\<rparr>"

text \<open>
  \<^verbatim>\<open>createState\<close>: the state part is the source's literal; the environment starts with no
  transport, no timer (ids start at 1, a timer handle being truthy), nothing aborted and
  empty logs.
\<close>

definition createState :: World where
  "createState = \<lparr>ws = None, isManualClose = False, reconnectCount = 0, reconnectTimer = None,
     messageBuffer = [], eventQueue = [], messageQueue = [], messageCallbacks = [],
     eventCallbacks = [], abortController = None, activeMessageIterators = 0,
     activeEventIterators = 0, messageResolvers = [], eventResolvers = [],
     sockets = (\<lambda>h. newWebSocket), nextSocket = 0, timers = [], nextTimer = 1, abortedControllers = {}, now = 0,
     eventCallbackCalls = [], messageCallbackCalls = [], resolverCalls = []\<rparr>"

definition defaultOptions :: NormalizedSocketOptions where
  "defaultOptions = \<lparr>reconnect_enabled = True, reconnect_attempts = \<infinity>,
     reconnect_interval = DEFAULT_RECONNECT_INTERVAL, reconnect_backoff = Exponential,
     reconnect_maxInterval = DEFAULT_MAX_RECONNECT_INTERVAL,
     receive_size = DEFAULT_BUFFER_SIZE, receive_overflow = Oldest,
     send_size = DEFAULT_BUFFER_SIZE, send_overflow = Oldest\<rparr>"

text \<open>
  \<^verbatim>\<open>calculateReconnectInterval\<close>. \<open>r\<close> is the value returned by \<^verbatim>\<open>Math.random()\<close>, a finite
  number.
\<close>

definition calculateReconnectInterval ::
  "nat \<Rightarrow> number \<Rightarrow> ReconnectBackoff \<Rightarrow> number \<Rightarrow> real \<Rightarrow> number" where
  "calculateReconnectInterval attempt baseInterval backoff maxInterval r =
     (let interval = (if backoff = Exponential then js_times baseInterval (Math_pow2 attempt)
                      else js_times baseInterval (js_plus (of_count attempt) (Finite 1)));
          jitter = js_times (js_times interval RECONNECT_JITTER_RATIO)
                     (js_minus (js_times (Finite r) (Finite 2)) (Finite 1));
          interval = Math_min (js_plus interval jitter) maxInterval
      in Math_max (Finite 0) (Math_min interval maxInterval))"

definition parseMessage :: "(string \<Rightarrow> json option) \<Rightarrow> string \<Rightarrow> incoming" where
  "parseMessage parse data = (case parse data of Some v \<Rightarrow> Parsed v | None \<Rightarrow> Unparsed data)"

text \<open>
  \<^verbatim>\<open>serializeMessage\<close>: the three tests of the source are functions on the payload;
  \<open>as_is\<close> is the cast \<^verbatim>\<open>data as string | ArrayBuffer | Blob\<close> of the last line.
\<close>

fun typeof_object :: "outgoing \<Rightarrow> bool" where
  "typeof_object (OString s) = False"
| "typeof_object (OArrayBuffer b) = True"
| "typeof_object (OBlob b) = True"
| "typeof_object (OObject j) = True"

fun instanceof_ArrayBuffer :: "outgoing \<Rightarrow> bool" where
  "instanceof_ArrayBuffer (OArrayBuffer b) = True"
| "instanceof_ArrayBuffer _ = False"

fun instanceof_Blob :: "outgoing \<Rightarrow> bool" where
  "instanceof_Blob (OBlob b) = True"
| "instanceof_Blob _ = False"

fun JSON_stringify :: "(json \<Rightarrow> string) \<Rightarrow> outgoing \<Rightarrow> string" where
  "JSON_stringify stringify (OObject j) = stringify j"
| "JSON_stringify stringify (OString s) = stringify (JString s)"
| "JSON_stringify stringify (OArrayBuffer b) = stringify (JObject [])"
| "JSON_stringify stringify (OBlob b) = stringify (JObject [])"

fun as_is :: "outgoing \<Rightarrow> wire" where
  "as_is (OString s) = WString s"
| "as_is (OArrayBuffer b) = WArrayBuffer b"
| "as_is (OBlob b) = WBlob b"
| "as_is (OObject j) = WString []"

definition serializeMessage :: "(json \<Rightarrow> string) \<Rightarrow> outgoing \<Rightarrow> wire" where
  "serializeMessage stringify data =
     (if typeof_object data \<and> \<not> instanceof_ArrayBuffer data \<and> \<not> instanceof_Blob data
      then WString (JSON_stringify stringify data)
      else as_is data)"

text \<open>\<^verbatim>\<open>String(message)\<close> on what \<^verbatim>\<open>serializeMessage\<close> returned.\<close>

fun String :: "wire \<Rightarrow> string" where
  "String (WString s) = s"
| "String (WArrayBuffer b) = ''[object ArrayBuffer]''"
| "String (WBlob b) = ''[object Blob]''"

datatype OverflowAction = drop_oldest | drop_newest | error | add

record 'a OverflowResult =
  action :: OverflowAction
  dropped :: "'a option"

text \<open>\<^verbatim>\<open>Array.prototype.shift\<close>: the removed head, if there is one, and the rest.\<close>

fun shift :: "'a list \<Rightarrow> 'a option \<times> 'a list" where
  "shift [] = (None, [])"
| "shift (x # xs) = (Some x, xs)"

text \<open>
  \<^verbatim>\<open>handleBufferOverflow\<close> mutates the array it is given; the model returns the array
  after the call next to the result object.
\<close>

definition handleBufferOverflow ::
  "BufferOverflowPolicy \<Rightarrow> 'a list \<Rightarrow> 'a \<Rightarrow> number \<Rightarrow> BufferType \<Rightarrow> 'a OverflowResult \<times> 'a list" where
  "handleBufferOverflow policy buffer newItem bufferSize bufferType =
     (if js_less (of_count (length buffer)) bufferSize then (\<lparr>action = add, dropped = None\<rparr>, buffer)
      else if policy = Oldest then
        (let (d, buffer') = shift buffer in (\<lparr>action = drop_oldest, dropped = d\<rparr>, buffer'))
      else if policy = Newest then (\<lparr>action = drop_newest, dropped = Some newItem\<rparr>, buffer)
      else (\<lparr>action = error, dropped = None\<rparr>, buffer))"

definition createDroppedEvent ::
  "DropReason \<Rightarrow> BufferOverflowPolicy \<Rightarrow> string option \<Rightarrow> number \<Rightarrow> BufferType \<Rightarrow> World \<Rightarrow> SocketEvent" where
  "createDroppedEvent reason policy droppedMessage bufferSize bufferType w =
     createEvent EvDropped (DroppedMeta reason policy droppedMessage bufferSize bufferType) w"

section \<open>handlers/event-handler.ts\<close>

text \<open>
  \<^verbatim>\<open>EventHandler.emit\<close>: every registered callback is invoked (in insertion order) and the
  invocation logged; with an active iterator the event is queued and every waiting
  resolver is taken out of the set and called; without one the event is queued and the
  oldest entry is shifted out once the queue is longer than \<open>MAX_RECENT_EVENTS\<close>.
\<close>

definition emit :: "SocketEvent \<Rightarrow> World \<Rightarrow> World" where
  "emit event w =
     (let w = w\<lparr>eventCallbackCalls := eventCallbackCalls w @ map (\<lambda>cb. (cb, event)) (eventCallbacks w)\<rparr>
      in if activeEventIterators w > 0 then
           w\<lparr>eventQueue := eventQueue w @ [event],
              eventResolvers := [],
              resolverCalls := resolverCalls w @ eventResolvers w\<rparr>
         else
           (let w = w\<lparr>eventQueue := eventQueue w @ [event]\<rparr>
            in if length (eventQueue w) > MAX_RECENT_EVENTS
               then w\<lparr>eventQueue := snd (shift (eventQueue w))\<rparr>
               else w))"

section \<open>handlers/message-handler.ts\<close>

datatype error_thrown = MessageBufferOverflow | SendQueueOverflow

text \<open>
  A call either returns or throws; the mutations made before a \<^verbatim>\<open>throw\<close> stay, so the
  world after the call is returned in both cases.
\<close>

datatype outcome = Returned | Threw error_thrown

definition handleCallbacks :: "incoming \<Rightarrow> World \<Rightarrow> World" where
  "handleCallbacks parsed w =
     w\<lparr>messageCallbackCalls := messageCallbackCalls w @ map (\<lambda>cb. (cb, parsed)) (messageCallbacks w)\<rparr>"

text \<open>
  The three lines that wake the waiting iterators: copy the resolver set, clear it, call
  every copied resolver.
\<close>

definition notifyMessageResolvers :: "World \<Rightarrow> World" where
  "notifyMessageResolvers w =
     w\<lparr>messageResolvers := [], resolverCalls := resolverCalls w @ messageResolvers w\<rparr>"

definition bufferReceivedMessage :: "NormalizedSocketOptions \<Rightarrow> string \<Rightarrow> World \<Rightarrow> outcome \<times> World" where
  "bufferReceivedMessage opts data w =
     (if activeMessageIterators w = 0 then (Returned, w)
      else
        (let (overflowResult, buffer') =
               handleBufferOverflow (receive_overflow opts) (messageBuffer w) data
                 (receive_size opts) ReceiveBuffer;
             w = w\<lparr>messageBuffer := buffer'\<rparr>
         in if action overflowResult = error then
              (Threw MessageBufferOverflow,
               emit (createDroppedEvent buffer_overflow (receive_overflow opts) None
                       (receive_size opts) ReceiveBuffer w) w)
            else if action overflowResult = drop_newest then
              (Returned,
               emit (createDroppedEvent buffer_full (receive_overflow opts) (dropped overflowResult)
                       (receive_size opts) ReceiveBuffer w) w)
            else if action overflowResult = drop_oldest then
              (let w = emit (createDroppedEvent buffer_full (receive_overflow opts)
                               (dropped overflowResult) (receive_size opts) ReceiveBuffer w) w;
                   w = w\<lparr>messageBuffer := messageBuffer w @ [data]\<rparr>
               in (Returned, notifyMessageResolvers w))
            else if action overflowResult = add then
              (let w = w\<lparr>messageBuffer := messageBuffer w @ [data]\<rparr>
               in (Returned, notifyMessageResolvers w))
            else (Returned, w)))"

definition receive ::
  "(string \<Rightarrow> json option) \<Rightarrow> NormalizedSocketOptions \<Rightarrow> string \<Rightarrow> World \<Rightarrow> outcome \<times> World" where
  "receive parse opts data w =
     (let parsed = parseMessage parse data;
          w = emit (createEvent EvReceived (ReceivedMeta parsed) w) w;
          w = handleCallbacks parsed w
      in bufferReceivedMessage opts data w)"

text \<open>The transport's own methods, on the transport at address \<open>h\<close>.\<close>

definition ws_send :: "nat \<Rightarrow> wire \<Rightarrow> World \<Rightarrow> World" where
  "ws_send h data w =
     w\<lparr>sockets := (sockets w)(h := (sockets w h)\<lparr>sentMessages := sentMessages (sockets w h) @ [data]\<rparr>)\<rparr>"

definition ws_close :: "nat \<Rightarrow> int option \<Rightarrow> string option \<Rightarrow> World \<Rightarrow> World" where
  "ws_close h code reason w =
     w\<lparr>sockets := (sockets w)(h := (sockets w h)\<lparr>readyState := CLOSING,
          closeCalls := closeCalls (sockets w h) @ [(code, reason)]\<rparr>)\<rparr>"

text \<open>\<^verbatim>\<open>this.state.ws && this.state.ws.readyState === WebSocket.OPEN\<close>\<close>

definition ws_is_open :: "World \<Rightarrow> bool" where
  "ws_is_open w = (case ws w of None \<Rightarrow> False | Some h \<Rightarrow> readyState (sockets w h) = OPEN)"

definition handleSendImmediately :: "wire \<Rightarrow> outgoing \<Rightarrow> World \<Rightarrow> World" where
  "handleSendImmediately message data w =
     (case ws w of
        None \<Rightarrow> w
      | Some h \<Rightarrow>
          if readyState (sockets w h) \<noteq> OPEN then w
          else (let w = ws_send h message w
                in emit (createEvent EvSent (SentMeta data) w) w))"

definition queueSendMessage :: "NormalizedSocketOptions \<Rightarrow> string \<Rightarrow> World \<Rightarrow> outcome \<times> World" where
  "queueSendMessage opts messageStr w =
     (let (overflowResult, queue') =
            handleBufferOverflow (send_overflow opts) (messageQueue w) messageStr
              (send_size opts) SendBuffer;
          w = w\<lparr>messageQueue := queue'\<rparr>
      in if action overflowResult = error then
           (Threw SendQueueOverflow,
            emit (createDroppedEvent send_queue_overflow (send_overflow opts) None
                    (send_size opts) SendBuffer w) w)
         else if action overflowResult = drop_newest then
           (Returned,
            emit (createDroppedEvent send_queue_full (send_overflow opts) (dropped overflowResult)
                    (send_size opts) SendBuffer w) w)
         else if action overflowResult = drop_oldest then
           (let w = emit (createDroppedEvent send_queue_full (send_overflow opts)
                            (dropped overflowResult) (send_size opts) SendBuffer w) w
            in (Returned, w\<lparr>messageQueue := messageQueue w @ [messageStr]\<rparr>))
         else if action overflowResult = add then
           (Returned, w\<lparr>messageQueue := messageQueue w @ [messageStr]\<rparr>)
         else (Returned, w))"

definition send ::
  "(json \<Rightarrow> string) \<Rightarrow> NormalizedSocketOptions \<Rightarrow> outgoing \<Rightarrow> World \<Rightarrow> outcome \<times> World" where
  "send stringify opts data w =
     (let message = serializeMessage stringify data
      in if ws_is_open w then (Returned, handleSendImmediately message data w)
         else (let messageStr = (case message of WString s \<Rightarrow> s | _ \<Rightarrow> String message)
               in queueSendMessage opts messageStr w))"

text \<open>
  The loop of \<^verbatim>\<open>flushQueue\<close>, on the transport \<open>h\<close> that \<^verbatim>\<open>this.state.ws\<close> names: while the
  queue is not empty, shift its head, and if the shifted string is truthy (a string is
  falsy exactly when it is empty) send it and emit a \<^verbatim>\<open>sent\<close> event.
\<close>

function flushQueue_loop :: "nat \<Rightarrow> World \<Rightarrow> World" where
  "flushQueue_loop h w =
     (if length (messageQueue w) > 0 then
        (let (message, queue') = shift (messageQueue w);
             w = w\<lparr>messageQueue := queue'\<rparr>
         in case message of
              None \<Rightarrow> flushQueue_loop h w
            | Some m \<Rightarrow>
                if m \<noteq> [] then
                  (let w = ws_send h (WString m) w
                   in flushQueue_loop h (emit (createEvent EvSent (SentMeta (OString m)) w) w))
                else flushQueue_loop h w)
      else w)"
  by pat_completeness auto
termination
proof (relation "measure (\<lambda>(h, w). length (messageQueue w))")
  show "wf (measure (\<lambda>(h, w). length (messageQueue w)))"
    by simp
next
  fix h :: nat and w :: World and x message queue' w'
  assume "0 < length (messageQueue w)" "x = shift (messageQueue w)" "(message, queue') = x"
    "w' = w\<lparr>messageQueue := queue'\<rparr>" "message = None"
  then show "((h, w'), h, w) \<in> measure (\<lambda>(h, w). length (messageQueue w))"
    by (cases "messageQueue w") auto
next
  fix h :: nat and w :: World and x message queue' w' m w''
  assume "0 < length (messageQueue w)" "x = shift (messageQueue w)" "(message, queue') = x"
    "w' = w\<lparr>messageQueue := queue'\<rparr>" "message = Some m" "m \<noteq> []" "w'' = ws_send h (WString m) w'"
  then show "((h, emit (createEvent EvSent (SentMeta (OString m)) w'') w''), h, w)
      \<in> measure (\<lambda>(h, w). length (messageQueue w))"
    by (cases "messageQueue w") (auto simp: emit_def ws_send_def Let_def)
next
  fix h :: nat and w :: World and x message queue' w' m
  assume "0 < length (messageQueue w)" "x = shift (messageQueue w)" "(message, queue') = x"
    "w' = w\<lparr>messageQueue := queue'\<rparr>" "message = Some m" "\<not> m \<noteq> []"
  then show "((h, w'), h, w) \<in> measure (\<lambda>(h, w). length (messageQueue w))"
    by (cases "messageQueue w") auto
qed

definition flushQueue :: "World \<Rightarrow> World" where
  "flushQueue w =
     (case ws w of
        None \<Rightarrow> w
      | Some h \<Rightarrow> if readyState (sockets w h) \<noteq> OPEN then w else flushQueue_loop h w)"

section \<open>handlers/connection-handler.ts\<close>

text \<open>
  Timers. \<^verbatim>\<open>setTimeout\<close> hands out a fresh id and records the pending timeout with its
  delay; \<^verbatim>\<open>clearTimeout\<close> removes the pending timeout with that id, if there is one. The
  only callback the handlers ever pass to \<^verbatim>\<open>setTimeout\<close> is the retry callback below.
\<close>

definition setTimeout :: "number \<Rightarrow> World \<Rightarrow> nat \<times> World" where
  "setTimeout delay w =
     (nextTimer w, w\<lparr>timers := timers w @ [(nextTimer w, delay)], nextTimer := Suc (nextTimer w)\<rparr>)"

definition clearTimeout :: "nat \<Rightarrow> World \<Rightarrow> World" where
  "clearTimeout t w = w\<lparr>timers := filter (\<lambda>p. fst p \<noteq> t) (timers w)\<rparr>"

text \<open>\<open>r\<close> is what \<^verbatim>\<open>Math.random()\<close> returns inside \<^verbatim>\<open>calculateReconnectInterval\<close>.\<close>

definition scheduleReconnect :: "NormalizedSocketOptions \<Rightarrow> real \<Rightarrow> World \<Rightarrow> World" where
  "scheduleReconnect opts r w =
     (let w = (case reconnectTimer w of Some t \<Rightarrow> clearTimeout t w | None \<Rightarrow> w)
      in if enat (reconnectCount w) \<ge> reconnect_attempts opts then w
         else
           (let interval = calculateReconnectInterval (reconnectCount w) (reconnect_interval opts)
                             (reconnect_backoff opts) (reconnect_maxInterval opts) r;
                w = emit (createEvent EvReconnect
                            (ReconnectMeta (reconnectCount w + 1) (Some interval)) w) w;
                (t, w) = setTimeout interval w
            in w\<lparr>reconnectTimer := Some t\<rparr>))"

text \<open>
  What \<^verbatim>\<open>new WebSocket(url)\<close> does is the environment's choice: it returns a transport in
  state \<open>CONNECTING\<close>, or it throws.
\<close>

datatype construction = Constructed | ConstructionThrew string

definition connect :: "NormalizedSocketOptions \<Rightarrow> construction \<Rightarrow> real \<Rightarrow> World \<Rightarrow> World" where
  "connect opts c r w =
     (if (case abortController w of Some a \<Rightarrow> a \<in> abortedControllers w | None \<Rightarrow> False) then w
      else
        (case c of
           Constructed \<Rightarrow>
             w\<lparr>ws := Some (nextSocket w),
                sockets := (sockets w)(nextSocket w := newWebSocket),
                nextSocket := Suc (nextSocket w)\<rparr>
         | ConstructionThrew err \<Rightarrow>
             (let w = emit (createEvent EvError (ErrorMeta err) w) w
              in if reconnect_enabled opts \<and> enat (reconnectCount w) < reconnect_attempts opts
                 then scheduleReconnect opts r w
                 else w)))"

text \<open>The four hooks that \<^verbatim>\<open>connect\<close> installs on the transport it constructed.\<close>

definition onopen :: "World \<Rightarrow> World" where
  "onopen w =
     (let w = w\<lparr>reconnectCount := 0\<rparr>;
          w = emit (createEvent EvOpen NoMeta w) w
      in flushQueue w)"

definition onmessage ::
  "(string \<Rightarrow> json option) \<Rightarrow> NormalizedSocketOptions \<Rightarrow> string \<Rightarrow> World \<Rightarrow> outcome \<times> World" where
  "onmessage parse opts data w = receive parse opts data w"

definition onerror :: "string \<Rightarrow> World \<Rightarrow> World" where
  "onerror err w = emit (createEvent EvError (ErrorMeta err) w) w"

definition onclose :: "NormalizedSocketOptions \<Rightarrow> int \<Rightarrow> string \<Rightarrow> bool \<Rightarrow> real \<Rightarrow> World \<Rightarrow> World" where
  "onclose opts code reason wasClean r w =
     (let w = emit (createEvent EvClose (CloseMeta code reason wasClean) w) w
      in if \<not> isManualClose w \<and> reconnect_enabled opts
            \<and> enat (reconnectCount w) < reconnect_attempts opts
         then scheduleReconnect opts r w
         else w)"

text \<open>
  The callback that \<^verbatim>\<open>scheduleReconnect\<close> passes to \<^verbatim>\<open>setTimeout\<close>, and the firing of the
  pending timeout \<open>t\<close>: it leaves the pending set and the callback runs.
\<close>

definition reconnectTimerCallback ::
  "NormalizedSocketOptions \<Rightarrow> construction \<Rightarrow> real \<Rightarrow> World \<Rightarrow> World" where
  "reconnectTimerCallback opts c r w =
     (let w = w\<lparr>reconnectCount := reconnectCount w + 1\<rparr>;
          w = emit (createEvent EvReconnect (ReconnectMeta (reconnectCount w) None) w) w
      in connect opts c r w)"

definition fireTimer :: "NormalizedSocketOptions \<Rightarrow> nat \<Rightarrow> construction \<Rightarrow> real \<Rightarrow> World \<Rightarrow> World" where
  "fireTimer opts t c r w = reconnectTimerCallback opts c r (clearTimeout t w)"

definition close :: "int option \<Rightarrow> string option \<Rightarrow> World \<Rightarrow> World" where
  "close code reason w =
     (let w = w\<lparr>isManualClose := True\<rparr>;
          w = (case reconnectTimer w of
                 Some t \<Rightarrow> (clearTimeout t w)\<lparr>reconnectTimer := None\<rparr>
               | None \<Rightarrow> w);
          w = (case ws w of
                 Some h \<Rightarrow> (ws_close h code reason w)\<lparr>ws := None\<rparr>
               | None \<Rightarrow> w);
          w = (case abortController w of
                 Some a \<Rightarrow> w\<lparr>abortedControllers := insert a (abortedControllers w),
                              abortController := None\<rparr>
               | None \<Rightarrow> w)
      in w\<lparr>messageQueue := []\<rparr>)"

section \<open>generators.ts\<close>

text \<open>
  The generators suspend at every \<^verbatim>\<open>yield\<close> and \<^verbatim>\<open>await\<close>; what they do to the state
  between two suspensions is one function each: the entry (the counter goes up), one
  \<^verbatim>\<open>yield\<close> of the inner loop (the head of the queue is shifted out and handed to the
  consumer), and the \<^verbatim>\<open>finally\<close> block. The text is that of \<^verbatim>\<open>src/generators.ts\<close>, the
  file that \<^verbatim>\<open>socket.ts\<close> imports: the \<^verbatim>\<open>finally\<close> block of \<^verbatim>\<open>messagesGenerator\<close> clears the
  receive buffer when the counter reaches zero, the one of \<^verbatim>\<open>eventsGenerator\<close> only
  decrements the counter (its comment: the event queue is not cleared when no iterators
  are left). That file waits by polling, which leaves the state alone;
  \<open>waitForItems_events\<close> and \<open>waitForItems_messages\<close> are the calls of \<^verbatim>\<open>waitForItems\<close> of
  \<^verbatim>\<open>utils.ts\<close> on the resolver sets of the state: a resolver is registered while the queue
  is empty.
\<close>

definition eventsGenerator_enter :: "World \<Rightarrow> World" where
  "eventsGenerator_enter w = w\<lparr>activeEventIterators := activeEventIterators w + 1\<rparr>"

definition eventsGenerator_yield :: "World \<Rightarrow> SocketEvent option \<times> World" where
  "eventsGenerator_yield w =
     (if length (eventQueue w) > 0
      then (let (e, q) = shift (eventQueue w) in (e, w\<lparr>eventQueue := q\<rparr>))
      else (None, w))"

definition waitForItems_events :: "nat \<Rightarrow> World \<Rightarrow> World" where
  "waitForItems_events resolver w =
     (if length (eventQueue w) > 0 then w
      else w\<lparr>eventResolvers := eventResolvers w @ [resolver]\<rparr>)"

definition eventsGenerator_finally :: "World \<Rightarrow> World" where
  "eventsGenerator_finally w = w\<lparr>activeEventIterators := activeEventIterators w - 1\<rparr>"

definition messagesGenerator_enter :: "World \<Rightarrow> World" where
  "messagesGenerator_enter w = w\<lparr>activeMessageIterators := activeMessageIterators w + 1\<rparr>"

definition messagesGenerator_yield ::
  "(string \<Rightarrow> json option) \<Rightarrow> World \<Rightarrow> incoming option \<times> World" where
  "messagesGenerator_yield parse w =
     (if length (messageBuffer w) > 0
      then (let (messageStr, b) = shift (messageBuffer w)
            in (map_option (parseMessage parse) messageStr, w\<lparr>messageBuffer := b\<rparr>))
      else (None, w))"

definition waitForItems_messages :: "nat \<Rightarrow> World \<Rightarrow> World" where
  "waitForItems_messages resolver w =
     (if length (messageBuffer w) > 0 then w
      else w\<lparr>messageResolvers := messageResolvers w @ [resolver]\<rparr>)"

definition messagesGenerator_finally :: "World \<Rightarrow> World" where
  "messagesGenerator_finally w =
     (let w = w\<lparr>activeMessageIterators := activeMessageIterators w - 1\<rparr>
      in if activeMessageIterators w = 0 then w\<lparr>messageBuffer := []\<rparr> else w)"

section \<open>socket.ts\<close>

definition onMessage :: "nat \<Rightarrow> World \<Rightarrow> World" where
  "onMessage callback w =
     (if callback \<in> set (messageCallbacks w) then w
      else w\<lparr>messageCallbacks := messageCallbacks w @ [callback]\<rparr>)"

definition onMessage_unsubscribe :: "nat \<Rightarrow> World \<Rightarrow> World" where
  "onMessage_unsubscribe callback w = w\<lparr>messageCallbacks := removeAll callback (messageCallbacks w)\<rparr>"

definition onEvent :: "nat \<Rightarrow> World \<Rightarrow> World" where
  "onEvent callback w =
     (if callback \<in> set (eventCallbacks w) then w
      else w\<lparr>eventCallbacks := eventCallbacks w @ [callback]\<rparr>)"

definition onEvent_unsubscribe :: "nat \<Rightarrow> World \<Rightarrow> World" where
  "onEvent_unsubscribe callback w = w\<lparr>eventCallbacks := removeAll callback (eventCallbacks w)\<rparr>"

section \<open>Executions\<close>

text \<open>
  Everything runs on one cooperative thread, so an execution of a socket is a sequence of
  steps, each one a call through the facade, a hook invoked by a transport, the firing of
  a pending timeout, a step of a generator, or the clock advancing. A transport reports
  \<^verbatim>\<open>open\<close> once, from \<open>CONNECTING\<close>, and \<^verbatim>\<open>close\<close> once; a timeout fires only while it is
  pending; a generator yields, waits and finishes only after it was entered. A step that
  the environment cannot take in the current state is skipped by \<open>run\<close>.
\<close>

datatype operation =
    Connect construction real
  | Close "int option" "string option"
  | Send outgoing
  | TransportOpened nat
  | TransportMessage nat string
  | TransportError nat string
  | TransportClosed nat int string bool real
  | TimerFired nat construction real
  | ClockAdvanced nat
  | EventsEnter | EventsYield | EventsWait nat | EventsFinally
  | MessagesEnter | MessagesYield | MessagesWait nat | MessagesFinally
  | OnMessage nat | OffMessage nat | OnEvent nat | OffEvent nat

definition ws_set_readyState :: "nat \<Rightarrow> ReadyState \<Rightarrow> World \<Rightarrow> World" where
  "ws_set_readyState h rs w = w\<lparr>sockets := (sockets w)(h := (sockets w h)\<lparr>readyState := rs\<rparr>)\<rparr>"

fun enabled :: "operation \<Rightarrow> World \<Rightarrow> bool" where
  "enabled (Connect c r) w = (0 \<le> r \<and> r < 1)"
| "enabled (TransportOpened h) w = (h < nextSocket w \<and> readyState (sockets w h) = CONNECTING)"
| "enabled (TransportMessage h data) w = (h < nextSocket w \<and> readyState (sockets w h) = OPEN)"
| "enabled (TransportError h err) w = (h < nextSocket w)"
| "enabled (TransportClosed h code reason wasClean r) w =
     (h < nextSocket w \<and> readyState (sockets w h) \<noteq> CLOSED \<and> 0 \<le> r \<and> r < 1)"
| "enabled (TimerFired t c r) w = (t \<in> fst ` set (timers w) \<and> 0 \<le> r \<and> r < 1)"
| "enabled (ClockAdvanced n) w = (now w \<le> n)"
| "enabled EventsYield w = (0 < activeEventIterators w)"
| "enabled (EventsWait resolver) w = (0 < activeEventIterators w)"
| "enabled EventsFinally w = (0 < activeEventIterators w)"
| "enabled MessagesYield w = (0 < activeMessageIterators w)"
| "enabled (MessagesWait resolver) w = (0 < activeMessageIterators w)"
| "enabled MessagesFinally w = (0 < activeMessageIterators w)"
| "enabled _ w = True"

fun step ::
  "(string \<Rightarrow> json option) \<Rightarrow> (json \<Rightarrow> string) \<Rightarrow> NormalizedSocketOptions \<Rightarrow> operation \<Rightarrow> World \<Rightarrow> World" where
  "step parse stringify opts (Connect c r) w = connect opts c r w"
| "step parse stringify opts (Close code reason) w = close code reason w"
| "step parse stringify opts (Send data) w = snd (send stringify opts data w)"
| "step parse stringify opts (TransportOpened h) w = onopen (ws_set_readyState h OPEN w)"
| "step parse stringify opts (TransportMessage h data) w = snd (onmessage parse opts data w)"
| "step parse stringify opts (TransportError h err) w = onerror err w"
| "step parse stringify opts (TransportClosed h code reason wasClean r) w =
     onclose opts code reason wasClean r (ws_set_readyState h CLOSED w)"
| "step parse stringify opts (TimerFired t c r) w = fireTimer opts t c r w"
| "step parse stringify opts (ClockAdvanced n) w = w\<lparr>now := n\<rparr>"
| "step parse stringify opts EventsEnter w = eventsGenerator_enter w"
| "step parse stringify opts EventsYield w = snd (eventsGenerator_yield w)"
| "step parse stringify opts (EventsWait resolver) w = waitForItems_events resolver w"
| "step parse stringify opts EventsFinally w = eventsGenerator_finally w"
| "step parse stringify opts MessagesEnter w = messagesGenerator_enter w"
| "step parse stringify opts MessagesYield w = snd (messagesGenerator_yield parse w)"
| "step parse stringify opts (MessagesWait resolver) w = waitForItems_messages resolver w"
| "step parse stringify opts MessagesFinally w = messagesGenerator_finally w"
| "step parse stringify opts (OnMessage callback) w = onMessage callback w"
| "step parse stringify opts (OffMessage callback) w = onMessage_unsubscribe callback w"
| "step parse stringify opts (OnEvent callback) w = onEvent callback w"
| "step parse stringify opts (OffEvent callback) w = onEvent_unsubscribe callback w"

fun run ::
  "(string \<Rightarrow> json option) \<Rightarrow> (json \<Rightarrow> string) \<Rightarrow> NormalizedSocketOptions \<Rightarrow> operation list \<Rightarrow> World \<Rightarrow> World" where
  "run parse stringify opts [] w = w"
| "run parse stringify opts (op # ops) w =
     run parse stringify opts ops (if enabled op w then step parse stringify opts op w else w)"

section \<open>Example configurations\<close>

text \<open>
  Concrete codecs, options and states at which the theorems below are instantiated: an
  encoder and a decoder that know one value each, options with both buffers of size 1
  under the policy \<^verbatim>\<open>error\<close>, the state after a transport was constructed and reported
  open, and a state with one active message iterator whose buffer and queue are full.
\<close>

definition exampleStringify :: "json \<Rightarrow> string" where
  "exampleStringify j = (case j of JObject [] \<Rightarrow> ''{}'' | _ \<Rightarrow> ''null'')"

definition exampleParse :: "string \<Rightarrow> json option" where
  "exampleParse s = (if s = ''null'' then Some JNull else None)"

definition openWorld :: World where
  "openWorld = ws_set_readyState 0 OPEN (connect defaultOptions Constructed 0 createState)"

definition errorOptions :: NormalizedSocketOptions where
  "errorOptions = defaultOptions\<lparr>receive_size := Finite 1, receive_overflow := ErrorPolicy,
     send_size := Finite 1, send_overflow := ErrorPolicy\<rparr>"

definition fullWorld :: World where
  "fullWorld = snd (send exampleStringify errorOptions (OString ''b'')
                 (snd (receive exampleParse errorOptions ''a'' (messagesGenerator_enter createState))))"

definition retryOptions :: NormalizedSocketOptions where
  "retryOptions = defaultOptions\<lparr>reconnect_attempts := 2, reconnect_interval := Finite 100,
     reconnect_backoff := Linear\<rparr>"

definition zeroOptions :: NormalizedSocketOptions where
  "zeroOptions = defaultOptions\<lparr>receive_size := Finite 0, send_size := Finite 0\<rparr>"


definition closedWorld :: World where
  "closedWorld = run exampleParse exampleStringify defaultOptions
     [Connect Constructed 0, TransportOpened 0, Close (Some 1000) (Some ''bye'')] createState"


definition pendingWorld :: World where
  "pendingWorld = run exampleParse exampleStringify defaultOptions
     [Connect Constructed 0, Send (OString ''''), Send (OString ''hi'')] createState"

section \<open>Invariants\<close>

text \<open>
  One turn of the loop of \<^verbatim>\<open>flushQueue\<close> on the string \<open>m\<close> that was shifted out of the
  queue.
\<close>

definition flushOne :: "nat \<Rightarrow> string \<Rightarrow> World \<Rightarrow> World" where
  "flushOne h m w =
     (if m \<noteq> [] then
        (let w = ws_send h (WString m) w
         in emit (createEvent EvSent (SentMeta (OString m)) w) w)
      else w)"

text \<open>
  The retry timer: at most one timeout is pending, \<open>reconnectTimer\<close> names it, and its
  id is below the next fresh id.
\<close>

definition timers_ok :: "World \<Rightarrow> bool" where
  "timers_ok w =
     (length (timers w) \<le> 1
      \<and> list_all (\<lambda>p. reconnectTimer w = Some (fst p) \<and> fst p < nextTimer w) (timers w))"

text \<open>
  The event queue: an event iterator is active or the queue holds at most
  \<open>MAX_RECENT_EVENTS\<close> events. \<open>emits_only w w'\<close> relates the states before and after code
  that touches the event queue through \<^verbatim>\<open>emit\<close> only and leaves the iterator counter alone:
  the counter is the same, a non-empty queue stays non-empty, and the bound is kept.
\<close>

definition events_ok :: "World \<Rightarrow> bool" where
  "events_ok w = (0 < activeEventIterators w \<or> length (eventQueue w) \<le> MAX_RECENT_EVENTS)"

definition emits_only :: "World \<Rightarrow> World \<Rightarrow> bool" where
  "emits_only w w' =
     (activeEventIterators w' = activeEventIterators w
      \<and> (eventQueue w = [] \<or> eventQueue w' \<noteq> [])
      \<and> (\<not> events_ok w \<or> events_ok w'))"

text \<open>
  The receive buffer and the send queue are within their configured sizes: neither size is
  less than the length. A size that can be kept is a count or \<^verbatim>\<open>Infinity\<close>.
\<close>

definition buffers_ok :: "NormalizedSocketOptions \<Rightarrow> World \<Rightarrow> bool" where
  "buffers_ok opts w =
     (\<not> js_less (receive_size opts) (of_count (length (messageBuffer w)))
      \<and> \<not> js_less (send_size opts) (of_count (length (messageQueue w))))"

definition size_is_count :: "number \<Rightarrow> bool" where
  "size_is_count s = (case s of Finite x \<Rightarrow> x = real (nat \<lfloor>x\<rfloor>) | PosInfinity \<Rightarrow> True | _ \<Rightarrow> False)"

declare flushQueue_loop.simps [simp del]

section \<open>The overflow policy engine\<close>

lemma handleBufferOverflow_add:
  "js_less (of_count (length buffer)) bufferSize \<Longrightarrow>
     handleBufferOverflow policy buffer newItem bufferSize bufferType
       = (\<lparr>action = add, dropped = None\<rparr>, buffer)"
  by (simp add: handleBufferOverflow_def)

lemma handleBufferOverflow_newest:
  "\<not> js_less (of_count (length buffer)) bufferSize \<Longrightarrow>
     handleBufferOverflow Newest buffer newItem bufferSize bufferType
       = (\<lparr>action = drop_newest, dropped = Some newItem\<rparr>, buffer)"
  by (simp add: handleBufferOverflow_def)

lemma handleBufferOverflow_error:
  "\<not> js_less (of_count (length buffer)) bufferSize \<Longrightarrow>
     handleBufferOverflow ErrorPolicy buffer newItem bufferSize bufferType
       = (\<lparr>action = error, dropped = None\<rparr>, buffer)"
  by (simp add: handleBufferOverflow_def)

lemma handleBufferOverflow_oldest:
  "\<not> js_less (of_count (length buffer)) bufferSize \<Longrightarrow>
     handleBufferOverflow Oldest buffer newItem bufferSize bufferType
       = (\<lparr>action = drop_oldest, dropped = fst (shift buffer)\<rparr>, snd (shift buffer))"
  by (simp add: handleBufferOverflow_def split: prod.splits)

text \<open>
  Claim C2, as amended. For every policy, buffer, new item and capacity:
  \<^verbatim>\<open>handleBufferOverflow\<close> answers \<^verbatim>\<open>add\<close> exactly when the buffer length is less than the
  capacity, and then leaves the buffer as it is; otherwise under \<^verbatim>\<open>oldest\<close>, provided the
  buffer is not empty, it answers \<^verbatim>\<open>drop_oldest\<close>, removes exactly the head and returns it
  as the dropped item; under \<^verbatim>\<open>newest\<close> it answers \<^verbatim>\<open>drop_newest\<close> with the new item as the
  dropped one and the buffer unchanged; under \<^verbatim>\<open>error\<close> it answers \<^verbatim>\<open>error\<close> with the buffer
  unchanged. A buffer that was changed means the answer was \<^verbatim>\<open>drop_oldest\<close>.
\<close>

theorem handleBufferOverflow_outcomes:
  "(let (res, buffer') = handleBufferOverflow policy buffer newItem bufferSize bufferType in
      (action res = add) = js_less (of_count (length buffer)) bufferSize
    \<and> (action res = drop_oldest \<or> buffer' = buffer)
    \<and> (if js_less (of_count (length buffer)) bufferSize
        then dropped res = None \<and> buffer' = buffer
        else case policy of
            Oldest \<Rightarrow>
              buffer \<noteq> [] \<longrightarrow>
                action res = drop_oldest \<and> (\<exists>x. dropped res = Some x \<and> buffer = x # buffer')
          | Newest \<Rightarrow> action res = drop_newest \<and> dropped res = Some newItem \<and> buffer' = buffer
          | ErrorPolicy \<Rightarrow> action res = error \<and> dropped res = None \<and> buffer' = buffer))"
proof (cases "js_less (of_count (length buffer)) bufferSize")
  case True
  then show ?thesis by (simp add: handleBufferOverflow_add)
next
  case False
  show ?thesis
  proof (cases policy)
    case Oldest
    with False show ?thesis
      by (cases buffer) (simp_all add: handleBufferOverflow_oldest)
  next
    case Newest
    with False show ?thesis by (simp add: handleBufferOverflow_newest)
  next
    case ErrorPolicy
    with False show ?thesis by (simp add: handleBufferOverflow_error)
  qed
qed

theorem handleBufferOverflow_outcomes_witness:
  "[''a'', ''b''] \<noteq> [] \<and> \<not> js_less (of_count (length [''a'', ''b''])) (Finite 2) \<and>
   handleBufferOverflow Oldest [''a'', ''b''] ''c'' (Finite 2) ReceiveBuffer
     = (\<lparr>action = drop_oldest, dropped = Some ''a''\<rparr>, [''b''])"
  using handleBufferOverflow_outcomes [of Oldest "[''a'', ''b'']" "''c''" "Finite 2" ReceiveBuffer]
  by (auto simp add: of_count_def split: prod.splits)

text \<open>
  Claim C2 as stated fails for the policy \<^verbatim>\<open>oldest\<close> on an empty buffer that is not shorter
  than the capacity, here capacity zero: \<^verbatim>\<open>shift\<close> finds no head, and the answer is
  \<^verbatim>\<open>drop_oldest\<close> with no dropped item (\<^verbatim>\<open>undefined\<close>) and nothing removed.
\<close>

theorem handleBufferOverflow_oldest_empty:
  "handleBufferOverflow Oldest ([] :: string list) ''m'' (Finite 0) SendBuffer
     = (\<lparr>action = drop_oldest, dropped = None\<rparr>, [])"
  by (simp add: handleBufferOverflow_def of_count_def)

section \<open>What emit changes\<close>

lemma emit_frame:
  "ws (emit e w) = ws w"
  "isManualClose (emit e w) = isManualClose w"
  "reconnectCount (emit e w) = reconnectCount w"
  "reconnectTimer (emit e w) = reconnectTimer w"
  "messageBuffer (emit e w) = messageBuffer w"
  "messageQueue (emit e w) = messageQueue w"
  "messageCallbacks (emit e w) = messageCallbacks w"
  "eventCallbacks (emit e w) = eventCallbacks w"
  "abortController (emit e w) = abortController w"
  "activeMessageIterators (emit e w) = activeMessageIterators w"
  "activeEventIterators (emit e w) = activeEventIterators w"
  "messageResolvers (emit e w) = messageResolvers w"
  "sockets (emit e w) = sockets w"
  "nextSocket (emit e w) = nextSocket w"
  "timers (emit e w) = timers w"
  "nextTimer (emit e w) = nextTimer w"
  "abortedControllers (emit e w) = abortedControllers w"
  "now (emit e w) = now w"
  "messageCallbackCalls (emit e w) = messageCallbackCalls w"
  by (simp_all add: emit_def Let_def)

lemma emit_eventCallbackCalls:
  "eventCallbackCalls (emit e w) = eventCallbackCalls w @ map (\<lambda>cb. (cb, e)) (eventCallbacks w)"
  by (simp add: emit_def Let_def)

lemma emit_eventQueue_active:
  "0 < activeEventIterators w \<Longrightarrow> eventQueue (emit e w) = eventQueue w @ [e]"
  by (simp add: emit_def Let_def)

lemma emit_eventQueue_inactive:
  "\<not> 0 < activeEventIterators w \<Longrightarrow>
     eventQueue (emit e w) =
       (if length (eventQueue w) < MAX_RECENT_EVENTS then eventQueue w @ [e]
        else tl (eventQueue w @ [e]))"
  by (cases "eventQueue w") (auto simp add: emit_def Let_def MAX_RECENT_EVENTS_def)

lemma emit_last: "last (eventQueue (emit e w)) = e"
  apply (cases "0 < activeEventIterators w")
  apply (simp add: emit_eventQueue_active)
  apply (simp add: emit_eventQueue_inactive)
  apply (cases "eventQueue w")
   apply (auto simp: MAX_RECENT_EVENTS_def)
  done

section \<open>The backoff calculator\<close>

text \<open>
  As long as nothing overflows, and for a cap that is not negative, the delay is the
  computed value plus its jitter, clamped to the interval from 0 to the cap.
\<close>

lemma overflow_threshold_large: "2 ^ 1023 < overflow_threshold"
  by (simp add: overflow_threshold_def)

lemma rounded_finite: "\<bar>x\<bar> < overflow_threshold \<Longrightarrow> rounded x = Finite x"
  by (auto simp add: rounded_def)

lemma rounded_small: "\<bar>x\<bar> \<le> 2 ^ 1023 \<Longrightarrow> rounded x = Finite x"
  using overflow_threshold_large by (intro rounded_finite) linarith

lemma Math_min_Finite: "Math_min (Finite x) (Finite y) = Finite (min x y)"
  by (simp add: min_def)

lemma Math_max_Finite: "Math_max (Finite x) (Finite y) = Finite (max x y)"
  by (simp add: max_def)

lemma calculateReconnectInterval_without_overflow:
  fixes b c r :: real
  defines "computed \<equiv> \<lambda>backoff attempt.
     (case backoff of Exponential \<Rightarrow> b * 2 ^ attempt | Linear \<Rightarrow> b * (real attempt + 1))"
  assumes r: "0 \<le> r" "r < 1" and c: "0 \<le> c"
    and a: "2 ^ attempt < overflow_threshold" "real attempt + 1 < overflow_threshold"
    and v: "\<bar>computed backoff attempt\<bar> * (12 / 10) < overflow_threshold"
  shows "calculateReconnectInterval attempt (Finite b) backoff (Finite c) r =
           Finite (max 0 (min (computed backoff attempt
                                 + computed backoff attempt * (2 / 10) * (r * 2 - 1)) c))"
proof -
  let ?v = "computed backoff attempt"
  let ?T = overflow_threshold
  have T: "2 < ?T" using overflow_threshold_large
    by (rule less_trans [rotated]) simp
  have i: "(if backoff = Exponential then js_times (Finite b) (Math_pow2 attempt)
            else js_times (Finite b) (js_plus (of_count attempt) (Finite 1))) = Finite ?v"
  proof (cases backoff)
    case Exponential
    have "\<bar>b * 2 ^ attempt\<bar> < ?T" using v Exponential by (simp add: computed_def)
    with a(1) Exponential show ?thesis
      by (simp add: Math_pow2_def rounded_finite computed_def)
  next
    case Linear
    have "\<bar>b * (real attempt + 1)\<bar> < ?T" using v Linear by (simp add: computed_def)
    with a(2) Linear show ?thesis
      by (simp add: of_count_def rounded_finite computed_def)
  qed
  have f: "\<bar>r * 2 - 1\<bar> \<le> 1" using r by (simp add: abs_le_iff)
  have s1: "js_times (Finite ?v) RECONNECT_JITTER_RATIO = Finite (?v * (2 / 10))"
    using v by (simp add: RECONNECT_JITTER_RATIO_def rounded_finite abs_mult)
  have s2: "js_minus (js_times (Finite r) (Finite 2)) (Finite 1) = Finite (r * 2 - 1)"
    using r T f by (simp add: js_minus_def rounded_finite)
  have "\<bar>?v * (2 / 10) * (r * 2 - 1)\<bar> \<le> \<bar>?v\<bar> * (2 / 10)"
    using f by (simp add: abs_mult mult_left_le)
  then have j: "\<bar>?v * (2 / 10) * (r * 2 - 1)\<bar> < ?T" using v by linarith
  have "\<bar>?v + ?v * (2 / 10) * (r * 2 - 1)\<bar> \<le> \<bar>?v\<bar> + \<bar>?v\<bar> * (2 / 10)"
    using \<open>\<bar>?v * (2 / 10) * (r * 2 - 1)\<bar> \<le> \<bar>?v\<bar> * (2 / 10)\<close> by linarith
  then have s: "\<bar>?v + ?v * (2 / 10) * (r * 2 - 1)\<bar> < ?T" using v by linarith
  have e3: "js_times (Finite (?v * (2 / 10))) (Finite (r * 2 - 1))
      = Finite (?v * (2 / 10) * (r * 2 - 1))"
    by (simp only: js_times.simps rounded_finite [OF j])
  have e4: "js_plus (Finite ?v) (Finite (?v * (2 / 10) * (r * 2 - 1)))
      = Finite (?v + ?v * (2 / 10) * (r * 2 - 1))"
    by (simp only: js_plus.simps rounded_finite [OF s])
  show ?thesis
    unfolding calculateReconnectInterval_def Let_def i s1 s2 e3 e4 Math_min_Finite Math_max_Finite
    by (simp only: min.assoc min.idem)
qed

lemma calculateReconnectInterval_in_range:
  assumes "0 \<le> r" "r < 1" "0 \<le> c"
    and "2 ^ attempt < overflow_threshold" "real attempt + 1 < overflow_threshold"
    and "\<bar>case backoff of Exponential \<Rightarrow> b * 2 ^ attempt | Linear \<Rightarrow> b * (real attempt + 1)\<bar>
           * (12 / 10) < overflow_threshold"
  shows "\<exists>d. calculateReconnectInterval attempt (Finite b) backoff (Finite c) r = Finite d
           \<and> 0 \<le> d \<and> d \<le> c"
  using calculateReconnectInterval_without_overflow [OF assms] assms(3) by simp

text \<open>
  Once \<open>base * 2 ^ attempt\<close> overflows, the computed value is \<^verbatim>\<open>Infinity\<close>; with a sample of at
  most one half the jitter is \<^verbatim>\<open>-Infinity\<close> or \<^verbatim>\<open>NaN\<close>, their sum is \<^verbatim>\<open>NaN\<close>, and
  \<^verbatim>\<open>Math.min\<close> and \<^verbatim>\<open>Math.max\<close> pass \<^verbatim>\<open>NaN\<close> on.
\<close>

lemma calculateReconnectInterval_NaN:
  assumes "1015 \<le> attempt" "0 \<le> r" "r \<le> 1 / 2"
  shows "calculateReconnectInterval attempt (Finite 1000) Exponential (Finite c) r = NaN"
proof -
  have "(2::real) ^ 1015 \<le> 2 ^ attempt"
    by (rule power_increasing) (use assms(1) in simp_all)
  moreover have "overflow_threshold \<le> 1000 * (2::real) ^ 1015"
    by (simp add: overflow_threshold_def)
  ultimately have big: "overflow_threshold \<le> 1000 * 2 ^ attempt"
    by linarith
  have i: "js_times (Finite 1000) (Math_pow2 attempt) = PosInfinity"
    using big by (simp add: Math_pow2_def rounded_def scaled_infinity_def)
  have T: "2 < overflow_threshold" using overflow_threshold_large
    by (rule less_trans [rotated]) simp
  have "\<bar>r * 2 - 1\<bar> \<le> 1" "\<bar>r * 2\<bar> \<le> 1" using assms by (simp_all add: abs_le_iff)
  then have s2: "js_minus (js_times (Finite r) (Finite 2)) (Finite 1) = Finite (r * 2 - 1)"
    using T by (simp add: js_minus_def rounded_finite)
  have "r * 2 - 1 \<le> 0" using assms by simp
  then have j: "js_times (js_times PosInfinity RECONNECT_JITTER_RATIO) (Finite (r * 2 - 1))
      = NegInfinity \<or> js_times (js_times PosInfinity RECONNECT_JITTER_RATIO) (Finite (r * 2 - 1)) = NaN"
    by (simp add: RECONNECT_JITTER_RATIO_def scaled_infinity_def)
  then show ?thesis
    unfolding calculateReconnectInterval_def Let_def i s2
    by auto
qed

lemma example_intervals:
  "calculateReconnectInterval 0 (Finite 100) Linear (Finite 30000) (1 / 2) = Finite 100"
  "calculateReconnectInterval 0 (Finite 1000) Exponential (Finite 30000) (1 / 2) = Finite 1000"
  "calculateReconnectInterval 3 (Finite 1000) Exponential (Finite 30000) (1 / 2) = Finite 8000"
  by (subst calculateReconnectInterval_without_overflow;
      simp add: overflow_threshold_def)+

text \<open>
  Claim C5 fails on the code. With the default options (exponential backoff, base interval
  1000, cap 30000, any number of attempts) and a sample of one quarter, the delay computed
  for attempt 1015 is \<^verbatim>\<open>NaN\<close>, which is neither at least 0 nor at most the cap.
\<close>

theorem calculateReconnectInterval_overflow:
  "calculateReconnectInterval 1015 (reconnect_interval defaultOptions)
     (reconnect_backoff defaultOptions) (reconnect_maxInterval defaultOptions) (1 / 4) = NaN
 \<and> enat 1015 < reconnect_attempts defaultOptions"
  using calculateReconnectInterval_NaN [of 1015 "1 / 4" 30000]
  by (simp add: defaultOptions_def DEFAULT_RECONNECT_INTERVAL_def DEFAULT_MAX_RECONNECT_INTERVAL_def)

section \<open>The message distributor\<close>

lemmas eval_defs = receive_def send_def bufferReceivedMessage_def queueSendMessage_def
  handleBufferOverflow_def emit_def Let_def handleCallbacks_def notifyMessageResolvers_def
  createEvent_def createDroppedEvent_def parseMessage_def serializeMessage_def ws_is_open_def
  MAX_RECENT_EVENTS_def createState_def defaultOptions_def messagesGenerator_enter_def
  of_count_def DEFAULT_BUFFER_SIZE_def

text \<open>
  Claim C9. For every structured payload \<open>OObject j\<close> passed to \<^verbatim>\<open>send\<close> while the transport
  is open: the call returns, the payload is encoded to the text \<open>stringify j\<close>, that text is
  what the transport is given, and the \<^verbatim>\<open>sent\<close> event of the call (delivered to every event
  callback and queued last) carries the original object, not the text. Nothing is queued.
\<close>

theorem send_object_while_open:
  assumes "ws w = Some h" "readyState (sockets w h) = OPEN"
  shows "(let sentEvent = \<lparr>ev_type = EvSent, ts = now w, meta = SentMeta (OObject j)\<rparr>;
              (result, w') = send stringify opts (OObject j) w
          in result = Returned
           \<and> serializeMessage stringify (OObject j) = WString (stringify j)
           \<and> sentMessages (sockets w' h) = sentMessages (sockets w h) @ [WString (stringify j)]
           \<and> eventCallbackCalls w' = eventCallbackCalls w @ map (\<lambda>cb. (cb, sentEvent)) (eventCallbacks w)
           \<and> last (eventQueue w') = sentEvent
           \<and> messageQueue w' = messageQueue w)"
  using assms
  by (simp add: send_def ws_is_open_def handleSendImmediately_def serializeMessage_def Let_def
      emit_frame emit_eventCallbackCalls emit_last ws_send_def createEvent_def)

theorem send_object_while_open_witness:
  "ws openWorld = Some 0 \<and> readyState (sockets openWorld 0) = OPEN \<and>
   sentMessages (sockets (snd (send exampleStringify defaultOptions (OObject (JObject [])) openWorld)) 0)
     = [WString ''{}''] \<and>
   eventQueue (snd (send exampleStringify defaultOptions (OObject (JObject [])) openWorld))
     = [\<lparr>ev_type = EvSent, ts = 0, meta = SentMeta (OObject (JObject []))\<rparr>]"
proof -
  have a: "ws openWorld = Some 0" and b: "readyState (sockets openWorld 0) = OPEN"
    by (simp_all add: openWorld_def connect_def createState_def ws_set_readyState_def)
  have c: "sentMessages (sockets openWorld 0) = []" "eventQueue openWorld = []" "now openWorld = 0"
    by (simp_all add: openWorld_def connect_def createState_def ws_set_readyState_def newWebSocket_def)
  have d: "eventQueue (snd (send exampleStringify defaultOptions (OObject (JObject [])) openWorld))
     = [\<lparr>ev_type = EvSent, ts = 0, meta = SentMeta (OObject (JObject []))\<rparr>]"
    by (simp add: send_def ws_is_open_def a b c handleSendImmediately_def Let_def emit_def createEvent_def MAX_RECENT_EVENTS_def
      ws_send_def openWorld_def connect_def createState_def ws_set_readyState_def)
  show ?thesis
    using send_object_while_open [OF a b, of "JObject []" exampleStringify defaultOptions] a b c d
    by (simp add: Let_def exampleStringify_def split: prod.splits)
qed


lemma bufferReceivedMessage_idle:
  "activeMessageIterators w = 0 \<Longrightarrow> bufferReceivedMessage opts data w = (Returned, w)"
  by (simp add: bufferReceivedMessage_def)

lemma bufferReceivedMessage_error:
  assumes "activeMessageIterators w \<noteq> 0" "receive_overflow opts = ErrorPolicy"
    "\<not> js_less (of_count (length (messageBuffer w))) (receive_size opts)"
  shows "bufferReceivedMessage opts data w =
           (Threw MessageBufferOverflow,
            emit \<lparr>ev_type = EvDropped, ts = now w,
                  meta = DroppedMeta buffer_overflow ErrorPolicy None (receive_size opts) ReceiveBuffer\<rparr> w)"
proof -
  have "w\<lparr>messageBuffer := messageBuffer w\<rparr> = w" by simp
  with assms show ?thesis
    by (simp add: bufferReceivedMessage_def handleBufferOverflow_error createDroppedEvent_def
        createEvent_def)
qed

lemma bufferReceivedMessage_returns:
  assumes "receive_overflow opts \<noteq> ErrorPolicy \<or> js_less (of_count (length (messageBuffer w))) (receive_size opts)"
  shows "fst (bufferReceivedMessage opts data w) = Returned"
proof (cases "js_less (of_count (length (messageBuffer w))) (receive_size opts)")
  case True
  then show ?thesis
    by (simp add: bufferReceivedMessage_def handleBufferOverflow_add Let_def)
next
  case False
  with assms show ?thesis
    by (cases "receive_overflow opts")
       (simp_all add: bufferReceivedMessage_def handleBufferOverflow_oldest
          handleBufferOverflow_newest Let_def)
qed

lemma queueSendMessage_error:
  assumes "send_overflow opts = ErrorPolicy" "\<not> js_less (of_count (length (messageQueue w))) (send_size opts)"
  shows "queueSendMessage opts messageStr w =
           (Threw SendQueueOverflow,
            emit \<lparr>ev_type = EvDropped, ts = now w,
                  meta = DroppedMeta send_queue_overflow ErrorPolicy None (send_size opts) SendBuffer\<rparr> w)"
proof -
  have "w\<lparr>messageQueue := messageQueue w\<rparr> = w" by simp
  with assms show ?thesis
    by (simp add: queueSendMessage_def handleBufferOverflow_error createDroppedEvent_def
        createEvent_def)
qed

lemma queueSendMessage_returns:
  assumes "send_overflow opts \<noteq> ErrorPolicy \<or> js_less (of_count (length (messageQueue w))) (send_size opts)"
  shows "fst (queueSendMessage opts messageStr w) = Returned"
proof (cases "js_less (of_count (length (messageQueue w))) (send_size opts)")
  case True
  then show ?thesis
    by (simp add: queueSendMessage_def handleBufferOverflow_add Let_def)
next
  case False
  with assms show ?thesis
    by (cases "send_overflow opts")
       (simp_all add: queueSendMessage_def handleBufferOverflow_oldest
          handleBufferOverflow_newest Let_def)
qed

lemma handleCallbacks_frame:
  "messageBuffer (handleCallbacks p w) = messageBuffer w"
  "activeMessageIterators (handleCallbacks p w) = activeMessageIterators w"
  "activeEventIterators (handleCallbacks p w) = activeEventIterators w"
  "eventQueue (handleCallbacks p w) = eventQueue w"
  "eventCallbacks (handleCallbacks p w) = eventCallbacks w"
  "eventCallbackCalls (handleCallbacks p w) = eventCallbackCalls w"
  "now (handleCallbacks p w) = now w"
  "messageQueue (handleCallbacks p w) = messageQueue w"
  by (simp_all add: handleCallbacks_def)

text \<open>
  Claim C6. An inbound receive throws exactly when the receive policy is \<^verbatim>\<open>error\<close>, the
  receive buffer is at capacity (not shorter than its size) and a message iterator is
  active; a send while the transport is not open throws exactly when the send policy is
  \<^verbatim>\<open>error\<close> and the send queue is at capacity. In both cases the state at the throw has the
  buffer, respectively the queue, as it was before the call, and the last event emitted is
  a \<^verbatim>\<open>dropped\<close> event whose \<^verbatim>\<open>droppedMessage\<close> is absent. The iterator counter is taken to
  be non-negative, as it is in every execution.
\<close>

theorem overflow_error_raises:
  assumes "0 \<le> activeMessageIterators w"
  shows "(let (result, w') = receive parse opts data w;
              received = \<lparr>ev_type = EvReceived, ts = now w, meta = ReceivedMeta (parseMessage parse data)\<rparr>;
              droppedEvent = \<lparr>ev_type = EvDropped, ts = now w,
                   meta = DroppedMeta buffer_overflow ErrorPolicy None (receive_size opts) ReceiveBuffer\<rparr>
          in (result \<noteq> Returned) =
               (receive_overflow opts = ErrorPolicy \<and> \<not> js_less (of_count (length (messageBuffer w))) (receive_size opts)
                \<and> 0 < activeMessageIterators w)
           \<and> (result \<noteq> Returned \<longrightarrow>
                 result = Threw MessageBufferOverflow
               \<and> messageBuffer w' = messageBuffer w
               \<and> last (eventQueue w') = droppedEvent
               \<and> eventCallbackCalls w' =
                   eventCallbackCalls w @ map (\<lambda>cb. (cb, received)) (eventCallbacks w)
                     @ map (\<lambda>cb. (cb, droppedEvent)) (eventCallbacks w)))
       \<and> (\<not> ws_is_open w \<longrightarrow>
           (let (result, w') = send stringify opts payload w;
                droppedEvent = \<lparr>ev_type = EvDropped, ts = now w,
                   meta = DroppedMeta send_queue_overflow ErrorPolicy None (send_size opts) SendBuffer\<rparr>
            in (result \<noteq> Returned) =
                 (send_overflow opts = ErrorPolicy \<and> \<not> js_less (of_count (length (messageQueue w))) (send_size opts))
             \<and> (result \<noteq> Returned \<longrightarrow>
                   result = Threw SendQueueOverflow
                 \<and> messageQueue w' = messageQueue w
                 \<and> last (eventQueue w') = droppedEvent
                 \<and> eventCallbackCalls w' =
                     eventCallbackCalls w @ map (\<lambda>cb. (cb, droppedEvent)) (eventCallbacks w))))"
proof -
  let ?received = "\<lparr>ev_type = EvReceived, ts = now w, meta = ReceivedMeta (parseMessage parse data)\<rparr>"
  let ?w1 = "handleCallbacks (parseMessage parse data) (emit ?received w)"
  have rec: "receive parse opts data w = bufferReceivedMessage opts data ?w1"
    by (simp add: receive_def Let_def createEvent_def)
  have fr: "messageBuffer ?w1 = messageBuffer w" "activeMessageIterators ?w1 = activeMessageIterators w"
    "now ?w1 = now w" "eventCallbacks ?w1 = eventCallbacks w"
    "eventCallbackCalls ?w1 = eventCallbackCalls w @ map (\<lambda>cb. (cb, ?received)) (eventCallbacks w)"
    by (simp_all add: handleCallbacks_frame emit_frame emit_eventCallbackCalls)
  let ?full = "receive_overflow opts = ErrorPolicy \<and> \<not> js_less (of_count (length (messageBuffer w))) (receive_size opts)
                \<and> 0 < activeMessageIterators w"
  have A: "?full \<Longrightarrow> receive parse opts data w =
      (Threw MessageBufferOverflow,
       emit \<lparr>ev_type = EvDropped, ts = now w,
             meta = DroppedMeta buffer_overflow ErrorPolicy None (receive_size opts) ReceiveBuffer\<rparr> ?w1)"
    using bufferReceivedMessage_error [of ?w1 opts data] by (simp add: rec fr)
  have B: "\<not> ?full \<Longrightarrow> fst (receive parse opts data w) = Returned"
  proof (cases "activeMessageIterators w = 0")
    case True
    then show ?thesis by (simp add: rec bufferReceivedMessage_idle fr)
  next
    case False
    assume "\<not> ?full"
    with False assms have "receive_overflow opts \<noteq> ErrorPolicy \<or> js_less (of_count (length (messageBuffer ?w1))) (receive_size opts)"
      by (auto simp add: fr)
    then show ?thesis by (simp add: rec bufferReceivedMessage_returns)
  qed
  have part1: "(let (result, w') = receive parse opts data w;
              received = ?received;
              droppedEvent = \<lparr>ev_type = EvDropped, ts = now w,
                   meta = DroppedMeta buffer_overflow ErrorPolicy None (receive_size opts) ReceiveBuffer\<rparr>
          in (result \<noteq> Returned) = ?full
           \<and> (result \<noteq> Returned \<longrightarrow>
                 result = Threw MessageBufferOverflow
               \<and> messageBuffer w' = messageBuffer w
               \<and> last (eventQueue w') = droppedEvent
               \<and> eventCallbackCalls w' =
                   eventCallbackCalls w @ map (\<lambda>cb. (cb, received)) (eventCallbacks w)
                     @ map (\<lambda>cb. (cb, droppedEvent)) (eventCallbacks w)))"
  proof (cases ?full)
    case True
    show ?thesis
      by (simp add: A [OF True] True emit_frame emit_last emit_eventCallbackCalls fr Let_def)
  next
    case False
    from B [OF False] False show ?thesis
      by (cases "receive parse opts data w") (simp add: Let_def)
  qed
  let ?sfull = "send_overflow opts = ErrorPolicy \<and> \<not> js_less (of_count (length (messageQueue w))) (send_size opts)"
  have part2: "(let (result, w') = send stringify opts payload w;
                droppedEvent = \<lparr>ev_type = EvDropped, ts = now w,
                   meta = DroppedMeta send_queue_overflow ErrorPolicy None (send_size opts) SendBuffer\<rparr>
            in (result \<noteq> Returned) = ?sfull
             \<and> (result \<noteq> Returned \<longrightarrow>
                   result = Threw SendQueueOverflow
                 \<and> messageQueue w' = messageQueue w
                 \<and> last (eventQueue w') = droppedEvent
                 \<and> eventCallbackCalls w' =
                     eventCallbackCalls w @ map (\<lambda>cb. (cb, droppedEvent)) (eventCallbacks w)))"
    if closed: "\<not> ws_is_open w"
  proof (cases ?sfull)
    case True
    then show ?thesis using closed
      by (simp add: send_def Let_def queueSendMessage_error emit_frame emit_last emit_eventCallbackCalls)
  next
    case False
    then have "fst (send stringify opts payload w) = Returned" using closed
      by (simp add: send_def Let_def queueSendMessage_returns)
    with False show ?thesis
      by (cases "send stringify opts payload w") (simp add: Let_def)
  qed
  from part1 part2 show ?thesis by blast
qed

theorem overflow_error_raises_witness:
  "0 \<le> activeMessageIterators fullWorld \<and> \<not> ws_is_open fullWorld \<and>
   messageBuffer fullWorld = [''a''] \<and> messageQueue fullWorld = [''b''] \<and>
   fst (receive exampleParse errorOptions ''c'' fullWorld) = Threw MessageBufferOverflow \<and>
   messageBuffer (snd (receive exampleParse errorOptions ''c'' fullWorld)) = [''a''] \<and>
   fst (send exampleStringify errorOptions (OString ''d'') fullWorld) = Threw SendQueueOverflow \<and>
   messageQueue (snd (send exampleStringify errorOptions (OString ''d'') fullWorld)) = [''b'']"
proof -
  have a: "0 \<le> activeMessageIterators fullWorld" "\<not> ws_is_open fullWorld"
    "messageBuffer fullWorld = [''a'']" "messageQueue fullWorld = [''b'']"
    "activeMessageIterators fullWorld = 1"
    by (simp_all add: fullWorld_def errorOptions_def exampleParse_def eval_defs)
  have b: "receive_overflow errorOptions = ErrorPolicy" "receive_size errorOptions = Finite 1"
    "send_overflow errorOptions = ErrorPolicy" "send_size errorOptions = Finite 1"
    by (simp_all add: errorOptions_def defaultOptions_def)
  show ?thesis
    using overflow_error_raises [OF a(1), of exampleParse errorOptions "''c''" exampleStringify "OString ''d''"]
      a b
    by (auto simp add: Let_def of_count_def split: prod.splits)
qed


section \<open>Manual shutdown\<close>

lemma close_fields:
  "isManualClose (close code reason w)"
  "reconnectTimer (close code reason w) = None"
  "timers (close code reason w) = filter (\<lambda>p. Some (fst p) \<noteq> reconnectTimer w) (timers w)"
  "nextTimer (close code reason w) = nextTimer w"
  "messageBuffer (close code reason w) = messageBuffer w"
  "messageQueue (close code reason w) = []"
  by (cases "reconnectTimer w"; cases "ws w"; cases "abortController w";
      auto simp add: close_def Let_def clearTimeout_def ws_close_def intro!: filter_cong)+

text \<open>
  Claim C10. For every prior state, \<^verbatim>\<open>close(code, reason)\<close> sets \<open>isManualClose\<close>, removes the
  pending timeout named by \<open>reconnectTimer\<close> and clears that field, calls \<^verbatim>\<open>close(code, reason)\<close>
  on the transport named by \<open>ws\<close> (no other transport is touched) and clears that field,
  aborts the controller named by \<open>abortController\<close> and clears that field, and empties the
  send queue. The receive buffer, the event queue, the retry counter, both callback sets,
  both iterator counters, both resolver sets and the rest of the environment are as before.
\<close>

theorem close_frame:
  "(let w' = close code reason w in
      isManualClose w'
    \<and> reconnectTimer w' = None
    \<and> timers w' = filter (\<lambda>p. Some (fst p) \<noteq> reconnectTimer w) (timers w)
    \<and> ws w' = None
    \<and> (\<forall>h. sockets w' h =
          (if ws w = Some h
           then (sockets w h)\<lparr>readyState := CLOSING, closeCalls := closeCalls (sockets w h) @ [(code, reason)]\<rparr>
           else sockets w h))
    \<and> abortController w' = None
    \<and> abortedControllers w' = abortedControllers w \<union> set_option (abortController w)
    \<and> messageQueue w' = []
    \<and> messageBuffer w' = messageBuffer w
    \<and> eventQueue w' = eventQueue w
    \<and> reconnectCount w' = reconnectCount w
    \<and> messageCallbacks w' = messageCallbacks w
    \<and> eventCallbacks w' = eventCallbacks w
    \<and> activeMessageIterators w' = activeMessageIterators w
    \<and> activeEventIterators w' = activeEventIterators w
    \<and> messageResolvers w' = messageResolvers w
    \<and> eventResolvers w' = eventResolvers w
    \<and> nextSocket w' = nextSocket w \<and> nextTimer w' = nextTimer w \<and> now w' = now w
    \<and> eventCallbackCalls w' = eventCallbackCalls w
    \<and> messageCallbackCalls w' = messageCallbackCalls w
    \<and> resolverCalls w' = resolverCalls w)"
  by (cases "reconnectTimer w"; cases "ws w"; cases "abortController w")
     (auto simp add: close_def Let_def clearTimeout_def ws_close_def intro!: filter_cong)

section \<open>The loop of flushQueue\<close>

lemma flushQueue_loop_Nil: "messageQueue w = [] \<Longrightarrow> flushQueue_loop h w = w"
  by (subst flushQueue_loop.simps) simp

lemma flushQueue_loop_Cons:
  "messageQueue w = m # rest \<Longrightarrow>
     flushQueue_loop h w = flushQueue_loop h (flushOne h m (w\<lparr>messageQueue := rest\<rparr>))"
  by (subst flushQueue_loop.simps) (simp add: flushOne_def Let_def)

lemma flushOne_messageQueue: "messageQueue (flushOne h m w) = messageQueue w"
  by (simp add: flushOne_def Let_def emit_frame ws_send_def)

lemma flushQueue_loop_induct:
  assumes "\<And>w. messageQueue w = [] \<Longrightarrow> P w"
    and "\<And>w m rest. messageQueue w = m # rest \<Longrightarrow> P (flushOne h m (w\<lparr>messageQueue := rest\<rparr>)) \<Longrightarrow> P w"
  shows "P w"
proof (induction "messageQueue w" arbitrary: w)
  case Nil
  then show ?case using assms(1) by simp
next
  case (Cons m rest)
  have "rest = messageQueue (flushOne h m (w\<lparr>messageQueue := rest\<rparr>))"
    by (simp add: flushOne_messageQueue)
  from Cons(1) [OF this] Cons(2) show ?case using assms(2) [of w m rest] by simp
qed

lemma flushOne_frame:
  "timers (flushOne h m w) = timers w"
  "reconnectTimer (flushOne h m w) = reconnectTimer w"
  "nextTimer (flushOne h m w) = nextTimer w"
  "messageBuffer (flushOne h m w) = messageBuffer w"
  "activeEventIterators (flushOne h m w) = activeEventIterators w"
  "activeMessageIterators (flushOne h m w) = activeMessageIterators w"
  by (simp_all add: flushOne_def Let_def emit_frame ws_send_def)

lemma flushQueue_loop_preserves:
  assumes "\<And>w m. P w \<Longrightarrow> P (flushOne h m w)" and "\<And>w q. P w \<Longrightarrow> P (w\<lparr>messageQueue := q\<rparr>)"
  shows "P w \<Longrightarrow> P (flushQueue_loop h w)"
proof (induction w rule: flushQueue_loop_induct [where h = h])
  case (1 w)
  then show ?case by (simp add: flushQueue_loop_Nil)
next
  case (2 w m rest)
  then show ?case using assms by (simp add: flushQueue_loop_Cons)
qed

lemma flushOne_fields:
  "ws (flushOne h m w) = ws w"
  "sockets (flushOne h m w) h =
     (if m \<noteq> [] then (sockets w h)\<lparr>sentMessages := sentMessages (sockets w h) @ [WString m]\<rparr>
      else sockets w h)"
  "eventCallbackCalls (flushOne h m w) =
     (if m \<noteq> [] then eventCallbackCalls w @
        map (\<lambda>cb. (cb, \<lparr>ev_type = EvSent, ts = now w, meta = SentMeta (OString m)\<rparr>)) (eventCallbacks w)
      else eventCallbackCalls w)"
  "eventCallbacks (flushOne h m w) = eventCallbacks w"
  "now (flushOne h m w) = now w"
  by (simp_all add: flushOne_def Let_def emit_frame emit_eventCallbackCalls ws_send_def createEvent_def)

lemma flushQueue_loop_effect:
  "messageQueue (flushQueue_loop h w) = []
 \<and> sentMessages (sockets (flushQueue_loop h w) h) =
     sentMessages (sockets w h) @ map WString (filter (\<lambda>m. m \<noteq> []) (messageQueue w))
 \<and> readyState (sockets (flushQueue_loop h w) h) = readyState (sockets w h)
 \<and> eventCallbacks (flushQueue_loop h w) = eventCallbacks w
 \<and> now (flushQueue_loop h w) = now w
 \<and> eventCallbackCalls (flushQueue_loop h w) =
     eventCallbackCalls w @
       concat (map (\<lambda>m. map (\<lambda>cb. (cb, \<lparr>ev_type = EvSent, ts = now w, meta = SentMeta (OString m)\<rparr>))
                          (eventCallbacks w))
                   (filter (\<lambda>m. m \<noteq> []) (messageQueue w)))"
proof (induction w rule: flushQueue_loop_induct [where h = h])
  case (1 w)
  then show ?case by (simp add: flushQueue_loop_Nil)
next
  case (2 w m rest)
  then show ?case
    by (simp add: flushQueue_loop_Cons flushOne_fields flushOne_messageQueue)
qed

section \<open>The retry timer\<close>

lemma timers_ok_cases:
  "timers_ok w \<longleftrightarrow>
     timers w = [] \<or> (\<exists>t d. timers w = [(t, d)] \<and> reconnectTimer w = Some t \<and> t < nextTimer w)"
  by (cases "timers w"; cases "tl (timers w)") (auto simp add: timers_ok_def)

lemma timers_ok_frame:
  "timers w' = timers w \<Longrightarrow> reconnectTimer w' = reconnectTimer w \<Longrightarrow> nextTimer w' = nextTimer w
     \<Longrightarrow> timers_ok w' = timers_ok w"
  by (simp add: timers_ok_def)

lemma timers_ok_emit [simp]: "timers_ok (emit e w) = timers_ok w"
  by (rule timers_ok_frame) (simp_all add: emit_frame)

lemma cancel_pending:
  "timers_ok w \<Longrightarrow>
     (case reconnectTimer w of Some t \<Rightarrow> clearTimeout t w | None \<Rightarrow> w) = w\<lparr>timers := []\<rparr>"
  by (auto simp add: timers_ok_cases clearTimeout_def split: option.splits)

lemma scheduleReconnect_unfold:
  assumes "timers_ok w"
  shows "scheduleReconnect opts r w =
     (if enat (reconnectCount w) \<ge> reconnect_attempts opts then w\<lparr>timers := []\<rparr>
      else (let interval = calculateReconnectInterval (reconnectCount w) (reconnect_interval opts)
                             (reconnect_backoff opts) (reconnect_maxInterval opts) r;
                w1 = emit \<lparr>ev_type = EvReconnect, ts = now w,
                            meta = ReconnectMeta (reconnectCount w + 1) (Some interval)\<rparr> (w\<lparr>timers := []\<rparr>)
            in w1\<lparr>timers := [(nextTimer w, interval)], nextTimer := Suc (nextTimer w),
                  reconnectTimer := Some (nextTimer w)\<rparr>))"
  by (simp add: scheduleReconnect_def cancel_pending [OF assms] Let_def setTimeout_def createEvent_def
      emit_frame)

lemma timers_ok_scheduleReconnect: "timers_ok w \<Longrightarrow> timers_ok (scheduleReconnect opts r w)"
  by (simp add: scheduleReconnect_unfold Let_def) (simp add: timers_ok_def)

lemma timers_ok_connect: "timers_ok w \<Longrightarrow> timers_ok (connect opts c r w)"
  by (cases c) (simp_all add: connect_def Let_def timers_ok_scheduleReconnect, simp add: timers_ok_def)

lemma timers_ok_close: "timers_ok w \<Longrightarrow> timers_ok (close code reason w)"
  by (auto simp add: close_fields timers_ok_cases)

lemma timers_ok_onclose: "timers_ok w \<Longrightarrow> timers_ok (onclose opts code reason wasClean r w)"
  by (simp add: onclose_def Let_def timers_ok_scheduleReconnect)

lemma timers_ok_fireTimer:
  assumes "timers_ok w"
  shows "timers_ok (fireTimer opts t c r w)"
proof -
  have "timers_ok (clearTimeout t w)"
    using assms by (auto simp add: timers_ok_def clearTimeout_def list_all_iff intro: le_trans [OF length_filter_le])
  then have "timers_ok ((clearTimeout t w)\<lparr>reconnectCount := reconnectCount (clearTimeout t w) + 1\<rparr>)"
    by (simp add: timers_ok_def)
  then show ?thesis
    by (simp add: fireTimer_def reconnectTimerCallback_def Let_def timers_ok_connect)
qed

lemma timers_ok_flushOne: "timers_ok (flushOne h m w) = timers_ok w"
  by (rule timers_ok_frame) (simp_all add: flushOne_frame)

lemma timers_ok_flushQueue_loop: "timers_ok w \<Longrightarrow> timers_ok (flushQueue_loop h w)"
  by (rule flushQueue_loop_preserves [where P = timers_ok])
     (simp_all add: timers_ok_flushOne, simp add: timers_ok_def)

lemma timers_ok_flushQueue: "timers_ok w \<Longrightarrow> timers_ok (flushQueue w)"
  by (simp add: flushQueue_def timers_ok_flushQueue_loop split: option.splits)

lemma bufferReceivedMessage_frame:
  "timers (snd (bufferReceivedMessage opts data w)) = timers w"
  "reconnectTimer (snd (bufferReceivedMessage opts data w)) = reconnectTimer w"
  "nextTimer (snd (bufferReceivedMessage opts data w)) = nextTimer w"
  "messageQueue (snd (bufferReceivedMessage opts data w)) = messageQueue w"
  "activeMessageIterators (snd (bufferReceivedMessage opts data w)) = activeMessageIterators w"
  by (simp_all add: bufferReceivedMessage_def Let_def emit_frame notifyMessageResolvers_def
      split: prod.splits)

lemma receive_frame:
  "timers (snd (receive parse opts data w)) = timers w"
  "reconnectTimer (snd (receive parse opts data w)) = reconnectTimer w"
  "nextTimer (snd (receive parse opts data w)) = nextTimer w"
  "messageQueue (snd (receive parse opts data w)) = messageQueue w"
  "activeMessageIterators (snd (receive parse opts data w)) = activeMessageIterators w"
  by (simp_all add: receive_def Let_def bufferReceivedMessage_frame handleCallbacks_def emit_frame)

lemma queueSendMessage_frame:
  "timers (snd (queueSendMessage opts m w)) = timers w"
  "reconnectTimer (snd (queueSendMessage opts m w)) = reconnectTimer w"
  "nextTimer (snd (queueSendMessage opts m w)) = nextTimer w"
  "messageBuffer (snd (queueSendMessage opts m w)) = messageBuffer w"
  "activeMessageIterators (snd (queueSendMessage opts m w)) = activeMessageIterators w"
  by (simp_all add: queueSendMessage_def Let_def emit_frame split: prod.splits)

lemma handleSendImmediately_frame:
  "timers (handleSendImmediately m d w) = timers w"
  "reconnectTimer (handleSendImmediately m d w) = reconnectTimer w"
  "nextTimer (handleSendImmediately m d w) = nextTimer w"
  "messageBuffer (handleSendImmediately m d w) = messageBuffer w"
  "messageQueue (handleSendImmediately m d w) = messageQueue w"
  "activeMessageIterators (handleSendImmediately m d w) = activeMessageIterators w"
  by (simp_all add: handleSendImmediately_def Let_def emit_frame ws_send_def split: option.splits)

lemma send_frame:
  "timers (snd (send stringify opts d w)) = timers w"
  "reconnectTimer (snd (send stringify opts d w)) = reconnectTimer w"
  "nextTimer (snd (send stringify opts d w)) = nextTimer w"
  "messageBuffer (snd (send stringify opts d w)) = messageBuffer w"
  "activeMessageIterators (snd (send stringify opts d w)) = activeMessageIterators w"
  by (simp_all add: send_def Let_def queueSendMessage_frame handleSendImmediately_frame)

lemma timers_ok_step:
  "timers_ok w \<Longrightarrow> timers_ok (step parse stringify opts op w)"
proof (cases op)
  case (Connect c r)
  then show "timers_ok w \<Longrightarrow> ?thesis" by (simp add: timers_ok_connect)
next
  case (Close code reason)
  then show "timers_ok w \<Longrightarrow> ?thesis" by (simp add: timers_ok_close)
next
  case (Send d)
  then show "timers_ok w \<Longrightarrow> ?thesis" by (simp add: timers_ok_def send_frame)
next
  case (TransportOpened h)
  assume "timers_ok w"
  then have "timers_ok (emit e ((ws_set_readyState h OPEN w)\<lparr>reconnectCount := 0\<rparr>))" for e
    by (simp add: timers_ok_def ws_set_readyState_def emit_frame)
  then show ?thesis using TransportOpened
    by (simp add: onopen_def Let_def timers_ok_flushQueue)
next
  case (TransportMessage h data)
  then show "timers_ok w \<Longrightarrow> ?thesis" by (simp add: timers_ok_def onmessage_def receive_frame)
next
  case (TransportError h err)
  then show "timers_ok w \<Longrightarrow> ?thesis" by (simp add: onerror_def)
next
  case (TransportClosed h code reason wasClean r)
  assume "timers_ok w"
  then have "timers_ok (ws_set_readyState h CLOSED w)"
    by (simp add: timers_ok_def ws_set_readyState_def)
  then show ?thesis using TransportClosed by (simp add: timers_ok_onclose)
next
  case (TimerFired t c r)
  then show "timers_ok w \<Longrightarrow> ?thesis" by (simp add: timers_ok_fireTimer)
qed (simp_all add: timers_ok_def eventsGenerator_enter_def eventsGenerator_yield_def
      waitForItems_events_def eventsGenerator_finally_def messagesGenerator_enter_def
      messagesGenerator_yield_def waitForItems_messages_def messagesGenerator_finally_def
      onMessage_def onMessage_unsubscribe_def onEvent_def onEvent_unsubscribe_def Let_def
      split: prod.splits)

lemma timers_ok_run:
  "timers_ok w \<Longrightarrow> timers_ok (run parse stringify opts ops w)"
  by (induction ops arbitrary: w) (simp_all add: timers_ok_step)

lemma timers_ok_createState: "timers_ok createState"
  by (simp add: timers_ok_def createState_def)

text \<open>
  Claim C4. In a state where the retry timer is as \<open>timers_ok\<close> says, which is every state
  of every execution, \<^verbatim>\<open>scheduleReconnect\<close> first cancels the pending timeout: none of the
  timeouts pending before the call is pending after it, and at most one is pending after
  it. If \<open>reconnectCount\<close> has reached the configured attempts the call does nothing else.
  Otherwise it computes the delay from the current \<open>reconnectCount\<close>, emits a
  \<^verbatim>\<open>reconnect\<close> event with attempt \<open>reconnectCount + 1\<close> and that delay as interval, and arms
  one timeout with that delay, which \<open>reconnectTimer\<close> then names; the counter is not
  changed by the call. A timeout that fires increments \<open>reconnectCount\<close>, emits a
  \<^verbatim>\<open>reconnect\<close> event with the new count as attempt and no interval, and calls
  \<^verbatim>\<open>connect\<close>. After every execution at most one timeout is pending.
\<close>

theorem scheduleReconnect_behaviour:
  assumes "timers_ok w"
  shows "(let rc = reconnectCount w;
              interval = calculateReconnectInterval rc (reconnect_interval opts)
                           (reconnect_backoff opts) (reconnect_maxInterval opts) r;
              scheduled = \<lparr>ev_type = EvReconnect, ts = now w,
                           meta = ReconnectMeta (rc + 1) (Some interval)\<rparr>;
              w' = scheduleReconnect opts r w
          in list_all (\<lambda>p. p \<notin> set (timers w')) (timers w)
           \<and> length (timers w') \<le> 1
           \<and> (if enat rc \<ge> reconnect_attempts opts
               then w' = w\<lparr>timers := []\<rparr>
               else timers w' = [(nextTimer w, interval)]
                  \<and> reconnectTimer w' = Some (nextTimer w)
                  \<and> reconnectCount w' = rc
                  \<and> eventCallbackCalls w' =
                      eventCallbackCalls w @ map (\<lambda>cb. (cb, scheduled)) (eventCallbacks w)
                  \<and> last (eventQueue w') = scheduled))
       \<and> fireTimer opts t c r' w2 =
           connect opts c r'
             (emit \<lparr>ev_type = EvReconnect, ts = now w2,
                    meta = ReconnectMeta (reconnectCount w2 + 1) None\<rparr>
                ((clearTimeout t w2)\<lparr>reconnectCount := reconnectCount w2 + 1\<rparr>))
       \<and> timers_ok (run parse stringify opts ops createState)
       \<and> length (timers (run parse stringify opts ops createState)) \<le> 1"
proof -
  have fresh: "list_all (\<lambda>p. fst p < nextTimer w) (timers w)"
    using assms by (auto simp add: timers_ok_def list_all_iff)
  have fire: "fireTimer opts t c r' w2 =
           connect opts c r'
             (emit \<lparr>ev_type = EvReconnect, ts = now w2,
                    meta = ReconnectMeta (reconnectCount w2 + 1) None\<rparr>
                ((clearTimeout t w2)\<lparr>reconnectCount := reconnectCount w2 + 1\<rparr>))"
    by (simp add: fireTimer_def reconnectTimerCallback_def Let_def createEvent_def clearTimeout_def)
  have reach: "timers_ok (run parse stringify opts ops createState)"
    by (rule timers_ok_run [OF timers_ok_createState])
  then have one: "length (timers (run parse stringify opts ops createState)) \<le> 1"
    by (simp add: timers_ok_def)
  have sched: "?thesis" if "enat (reconnectCount w) \<ge> reconnect_attempts opts"
    using that fire reach one
    by (simp add: scheduleReconnect_unfold [OF assms] Let_def list_all_iff)
  have sched': "?thesis" if "\<not> enat (reconnectCount w) \<ge> reconnect_attempts opts"
    using that fire reach one fresh
    by (auto simp add: scheduleReconnect_unfold [OF assms] Let_def list_all_iff emit_frame
        emit_eventCallbackCalls emit_last)
  from sched sched' show ?thesis by blast
qed

theorem scheduleReconnect_behaviour_witness:
  "timers_ok createState \<and>
   timers (scheduleReconnect retryOptions (1 / 2) createState) = [(1, Finite 100)] \<and>
   reconnectTimer (scheduleReconnect retryOptions (1 / 2) createState) = Some 1 \<and>
   eventQueue (scheduleReconnect retryOptions (1 / 2) createState)
     = [\<lparr>ev_type = EvReconnect, ts = 0, meta = ReconnectMeta 1 (Some (Finite 100))\<rparr>]"
proof -
  have i: "calculateReconnectInterval 0 (Finite 100) Linear (Finite 30000) (1 / 2) = Finite 100"
    by (rule example_intervals)
  have o: "reconnect_attempts retryOptions = 2" "reconnect_interval retryOptions = Finite 100"
    "reconnect_backoff retryOptions = Linear" "reconnect_maxInterval retryOptions = Finite 30000"
    by (simp_all add: retryOptions_def defaultOptions_def DEFAULT_MAX_RECONNECT_INTERVAL_def)
  have s: "reconnectCount createState = 0" "nextTimer createState = 1" "now createState = 0"
    "eventQueue createState = []" "timers createState = []" "activeEventIterators createState = 0"
    by (simp_all add: createState_def)
  have q: "eventQueue (scheduleReconnect retryOptions (1 / 2) createState)
     = [\<lparr>ev_type = EvReconnect, ts = 0, meta = ReconnectMeta 1 (Some (Finite 100))\<rparr>]"
    by (simp add: scheduleReconnect_unfold [OF timers_ok_createState] o s i Let_def
        emit_eventQueue_inactive MAX_RECENT_EVENTS_def zero_enat_def [symmetric])
  show ?thesis
    using scheduleReconnect_behaviour [OF timers_ok_createState, of retryOptions "1 / 2"] q
    by (simp add: o s i Let_def timers_ok_createState zero_enat_def [symmetric])
qed

section \<open>The event queue\<close>



lemma emits_only_same:
  "eventQueue w' = eventQueue w \<Longrightarrow> activeEventIterators w' = activeEventIterators w
     \<Longrightarrow> emits_only w w'"
  by (auto simp add: emits_only_def events_ok_def)































section \<open>Capacity of the receive buffer and of the send queue\<close>

text \<open>
  With sizes that are counts or \<^verbatim>\<open>Infinity\<close>, and at least 1 wherever the policy is
  \<^verbatim>\<open>oldest\<close>, the receive buffer and the send queue stay within their sizes in every
  execution.
\<close>

lemmas run_defs = eval_defs connect_def onopen_def onmessage_def flushQueue_def
  ws_set_readyState_def newWebSocket_def close_def scheduleReconnect_def setTimeout_def
  clearTimeout_def ws_close_def ws_send_def handleSendImmediately_def fireTimer_def
  reconnectTimerCallback_def flushQueue_loop_Nil

lemma size_is_count_cases:
  "size_is_count s \<Longrightarrow> s = PosInfinity \<or> (\<exists>k. s = Finite (real k))"
  by (cases s) (auto simp add: size_is_count_def)

lemma js_less_count:
  "js_less (of_count m) (Finite (real k)) = (m < k)"
  "js_less (Finite (real k)) (of_count m) = (k < m)"
  "js_less (of_count m) PosInfinity"
  "\<not> js_less PosInfinity (of_count m)"
  "js_less (Finite 0) (Finite (real k)) = (0 < k)"
  by (simp_all add: of_count_def)

lemma handleBufferOverflow_length:
  assumes "size_is_count n" "\<not> js_less n (of_count (length buffer))"
    and "policy = Oldest \<Longrightarrow> js_less (Finite 0) n"
    and "handleBufferOverflow policy buffer x n t = (res, buffer')"
  shows "if action res = add \<or> action res = drop_oldest
         then \<not> js_less n (of_count (length (buffer' @ [x])))
         else buffer' = buffer"
proof -
  from size_is_count_cases [OF assms(1)] show ?thesis
  proof
    assume "n = PosInfinity"
    with assms(4) show ?thesis
      by (auto simp add: handleBufferOverflow_add js_less_count)
  next
    assume "\<exists>k. n = Finite (real k)"
    then obtain k where n: "n = Finite (real k)" ..
    show ?thesis
    proof (cases "length buffer < k")
      case True
      with assms(4) n show ?thesis
        by (auto simp add: handleBufferOverflow_add js_less_count)
    next
      case False
      show ?thesis
      proof (cases policy)
        case Oldest
        with assms(3) n False obtain y ys where "buffer = y # ys"
          by (cases buffer) (auto simp add: js_less_count)
        with assms(2,4) n False Oldest show ?thesis
          by (auto simp add: handleBufferOverflow_oldest js_less_count)
      next
        case Newest
        with assms(4) n False show ?thesis
          by (auto simp add: handleBufferOverflow_newest js_less_count)
      next
        case ErrorPolicy
        with assms(4) n False show ?thesis
          by (auto simp add: handleBufferOverflow_error js_less_count)
      qed
    qed
  qed
qed

lemma bufferReceivedMessage_length:
  assumes "size_is_count (receive_size opts)"
    "\<not> js_less (receive_size opts) (of_count (length (messageBuffer w)))"
    "receive_overflow opts = Oldest \<Longrightarrow> js_less (Finite 0) (receive_size opts)"
  shows "\<not> js_less (receive_size opts)
           (of_count (length (messageBuffer (snd (bufferReceivedMessage opts data w)))))"
proof (cases "activeMessageIterators w = 0")
  case True
  with assms show ?thesis by (simp add: bufferReceivedMessage_idle)
next
  case False
  obtain res b where h: "handleBufferOverflow (receive_overflow opts) (messageBuffer w) data
      (receive_size opts) ReceiveBuffer = (res, b)" by fastforce
  from handleBufferOverflow_length [OF assms h] assms(2) False h show ?thesis
    by (cases "action res")
       (simp_all add: bufferReceivedMessage_def Let_def emit_frame notifyMessageResolvers_def)
qed

lemma queueSendMessage_length:
  assumes "size_is_count (send_size opts)"
    "\<not> js_less (send_size opts) (of_count (length (messageQueue w)))"
    "send_overflow opts = Oldest \<Longrightarrow> js_less (Finite 0) (send_size opts)"
  shows "\<not> js_less (send_size opts)
           (of_count (length (messageQueue (snd (queueSendMessage opts m w)))))"
proof -
  obtain res b where h: "handleBufferOverflow (send_overflow opts) (messageQueue w) m
      (send_size opts) SendBuffer = (res, b)" by fastforce
  from handleBufferOverflow_length [OF assms h] assms(2) h show ?thesis
    by (cases "action res") (simp_all add: queueSendMessage_def Let_def emit_frame)
qed

lemma js_less_shorter:
  "\<not> js_less s (of_count m) \<Longrightarrow> k \<le> m \<Longrightarrow> \<not> js_less s (of_count k)"
  by (cases s) (auto simp add: of_count_def)

lemma scheduleReconnect_buffers:
  "messageBuffer (scheduleReconnect opts r w) = messageBuffer w"
  "messageQueue (scheduleReconnect opts r w) = messageQueue w"
  by (simp_all add: scheduleReconnect_def Let_def setTimeout_def clearTimeout_def emit_frame
      split: option.splits prod.splits)

lemma connect_buffers:
  "messageBuffer (connect opts c r w) = messageBuffer w"
  "messageQueue (connect opts c r w) = messageQueue w"
  by (cases c; simp add: connect_def Let_def scheduleReconnect_buffers emit_frame)+

lemma flushQueue_buffers:
  "messageBuffer (flushQueue w) = messageBuffer w"
  "length (messageQueue (flushQueue w)) \<le> length (messageQueue w)"
proof -
  have "messageBuffer (flushQueue_loop h w) = messageBuffer w" for h
    by (induction w rule: flushQueue_loop_induct [where h = h])
       (simp_all add: flushQueue_loop_Nil flushQueue_loop_Cons flushOne_frame)
  then show "messageBuffer (flushQueue w) = messageBuffer w"
    by (simp add: flushQueue_def split: option.splits)
  show "length (messageQueue (flushQueue w)) \<le> length (messageQueue w)"
    using flushQueue_loop_effect by (simp add: flushQueue_def split: option.splits)
qed

lemma buffers_ok_step:
  assumes "buffers_ok opts w"
    and "size_is_count (receive_size opts)" "size_is_count (send_size opts)"
    and "receive_overflow opts = Oldest \<Longrightarrow> js_less (Finite 0) (receive_size opts)"
    and "send_overflow opts = Oldest \<Longrightarrow> js_less (Finite 0) (send_size opts)"
  shows "buffers_ok opts (step parse stringify opts op w)"
proof (cases op)
  case (Connect c r)
  with assms(1) show ?thesis by (simp add: buffers_ok_def connect_buffers)
next
  case (Close code reason)
  with assms(1) show ?thesis
    by (cases "send_size opts") (simp_all add: buffers_ok_def close_fields of_count_def)
next
  case (Send d)
  have "\<not> js_less (send_size opts) (of_count (length (messageQueue (snd (send stringify opts d w)))))"
    using assms(1,3,5)
    by (simp add: send_def Let_def handleSendImmediately_frame queueSendMessage_length buffers_ok_def)
  with assms(1) Send show ?thesis by (simp add: buffers_ok_def send_frame)
next
  case (TransportOpened h)
  let ?w1 = "emit (createEvent EvOpen NoMeta ((ws_set_readyState h OPEN w)\<lparr>reconnectCount := 0\<rparr>))
               ((ws_set_readyState h OPEN w)\<lparr>reconnectCount := 0\<rparr>)"
  have "messageBuffer ?w1 = messageBuffer w" "messageQueue ?w1 = messageQueue w"
    by (simp_all add: emit_frame ws_set_readyState_def)
  then have "\<not> js_less (send_size opts) (of_count (length (messageQueue (flushQueue ?w1))))"
    "\<not> js_less (receive_size opts) (of_count (length (messageBuffer (flushQueue ?w1))))"
    using assms(1) flushQueue_buffers [of ?w1]
    by (auto simp add: buffers_ok_def dest: js_less_shorter)
  with TransportOpened show ?thesis
    by (simp add: buffers_ok_def onopen_def Let_def)
next
  case (TransportMessage h data)
  let ?w1 = "handleCallbacks (parseMessage parse data)
               (emit (createEvent EvReceived (ReceivedMeta (parseMessage parse data)) w) w)"
  have "messageBuffer ?w1 = messageBuffer w" by (simp add: handleCallbacks_frame emit_frame)
  with assms(1,2,4) have "\<not> js_less (receive_size opts)
      (of_count (length (messageBuffer (snd (bufferReceivedMessage opts data ?w1)))))"
    by (intro bufferReceivedMessage_length) (simp_all add: buffers_ok_def)
  with assms(1) TransportMessage show ?thesis
    by (simp add: buffers_ok_def onmessage_def receive_frame) (simp add: receive_def Let_def)
next
  case (TransportError h err)
  with assms(1) show ?thesis by (simp add: buffers_ok_def onerror_def emit_frame)
next
  case (TransportClosed h code reason wasClean r)
  with assms(1) show ?thesis
    by (simp add: buffers_ok_def onclose_def Let_def scheduleReconnect_buffers emit_frame
        ws_set_readyState_def)
next
  case (TimerFired t c r)
  with assms(1) show ?thesis
    by (simp add: buffers_ok_def fireTimer_def reconnectTimerCallback_def Let_def connect_buffers
        emit_frame clearTimeout_def)
next
  case MessagesYield
  with assms(1) show ?thesis
    by (cases "messageBuffer w"; cases "receive_size opts")
       (auto simp add: buffers_ok_def messagesGenerator_yield_def of_count_def)
next
  case MessagesFinally
  with assms(1) show ?thesis
    by (cases "receive_size opts")
       (auto simp add: buffers_ok_def messagesGenerator_finally_def Let_def of_count_def
          dest: js_less_shorter [where k = 0])
qed (use assms(1) in \<open>auto simp add: buffers_ok_def eventsGenerator_enter_def eventsGenerator_yield_def
      waitForItems_events_def eventsGenerator_finally_def messagesGenerator_enter_def
      waitForItems_messages_def
      onMessage_def onMessage_unsubscribe_def onEvent_def onEvent_unsubscribe_def Let_def
      split: prod.splits\<close>)

lemma buffers_within_capacity:
  assumes "size_is_count (receive_size opts)" "size_is_count (send_size opts)"
    and "receive_overflow opts = Oldest \<Longrightarrow> js_less (Finite 0) (receive_size opts)"
    and "send_overflow opts = Oldest \<Longrightarrow> js_less (Finite 0) (send_size opts)"
  shows "buffers_ok opts (run parse stringify opts ops createState)"
proof -
  have "buffers_ok opts w \<Longrightarrow> buffers_ok opts (run parse stringify opts ops w)" for w
    by (induction ops arbitrary: w) (simp_all add: buffers_ok_step assms)
  moreover have "buffers_ok opts createState"
    using size_is_count_cases [OF assms(1)] size_is_count_cases [OF assms(2)]
    by (auto simp add: buffers_ok_def createState_def of_count_def)
  ultimately show ?thesis by simp
qed

text \<open>
  Claim C1 fails on the code for size 0 under the policy \<^verbatim>\<open>oldest\<close> (the default policy):
  \<^verbatim>\<open>handleBufferOverflow\<close> answers \<^verbatim>\<open>drop_oldest\<close> on the empty buffer and the caller appends
  the new item. After one inbound message with an active message iterator the receive
  buffer holds one message, and after one \<^verbatim>\<open>send\<close> on a transport that is still connecting
  the send queue holds one, both above the configured size 0.
\<close>

theorem capacity_zero_oldest_overflows:
  "receive_size zeroOptions = Finite 0 \<and> receive_overflow zeroOptions = Oldest
 \<and> send_size zeroOptions = Finite 0 \<and> send_overflow zeroOptions = Oldest
 \<and> messageBuffer (run exampleParse exampleStringify zeroOptions
       [Connect Constructed 0, TransportOpened 0, MessagesEnter, TransportMessage 0 ''m'']
       createState) = [''m'']
 \<and> messageQueue (run exampleParse exampleStringify zeroOptions
       [Connect Constructed 0, Send (OString ''m'')] createState) = [''m'']"
  by (simp add: zeroOptions_def exampleParse_def run_defs)

section \<open>Reconnecting after a manual shutdown\<close>

text \<open>
  The \<^verbatim>\<open>close\<close> hook of a transport does not schedule a retry once \<open>isManualClose\<close> is set,
  and no step resets \<open>isManualClose\<close>.
\<close>

lemma onclose_after_manual_close:
  "isManualClose w \<Longrightarrow> onclose opts code reason wasClean r w
     = emit \<lparr>ev_type = EvClose, ts = now w, meta = CloseMeta code reason wasClean\<rparr> w"
  by (simp add: onclose_def Let_def emit_frame createEvent_def)

lemma isManualClose_step:
  "isManualClose w \<Longrightarrow> isManualClose (step parse stringify opts op w)"
proof (cases op)
  case (Connect c r)
  assume "isManualClose w"
  then show ?thesis using Connect
    by (cases c)
       (simp_all add: connect_def Let_def emit_frame scheduleReconnect_def setTimeout_def
          clearTimeout_def split: option.splits)
next
  case (Close code reason)
  then show ?thesis by (simp add: close_fields)
next
  case (Send d)
  assume "isManualClose w"
  then show ?thesis using Send
    by (simp add: send_def Let_def handleSendImmediately_def queueSendMessage_def emit_frame
        ws_send_def split: option.splits prod.splits)
next
  case (TransportOpened h)
  have "isManualClose (flushQueue_loop k v) = isManualClose v" for k v
    by (induction v rule: flushQueue_loop_induct [where h = k])
       (simp_all add: flushQueue_loop_Nil flushQueue_loop_Cons flushOne_def Let_def emit_frame
          ws_send_def)
  moreover assume "isManualClose w"
  ultimately show ?thesis using TransportOpened
    by (simp add: onopen_def Let_def flushQueue_def emit_frame ws_set_readyState_def
        split: option.splits)
next
  case (TransportMessage h data)
  assume "isManualClose w"
  then show ?thesis using TransportMessage
    by (simp add: onmessage_def receive_def Let_def bufferReceivedMessage_def handleCallbacks_def
        notifyMessageResolvers_def emit_frame split: prod.splits)
next
  case (TransportError h err)
  assume "isManualClose w"
  then show ?thesis using TransportError by (simp add: onerror_def emit_frame)
next
  case (TransportClosed h code reason wasClean r)
  assume "isManualClose w"
  then show ?thesis using TransportClosed
    by (simp add: onclose_def Let_def emit_frame ws_set_readyState_def)
next
  case (TimerFired t c r)
  assume "isManualClose w"
  then show ?thesis using TimerFired
    by (cases c)
       (simp_all add: fireTimer_def reconnectTimerCallback_def connect_def Let_def emit_frame
          scheduleReconnect_def setTimeout_def clearTimeout_def split: option.splits)
qed (simp_all add: eventsGenerator_enter_def eventsGenerator_yield_def
      waitForItems_events_def eventsGenerator_finally_def messagesGenerator_enter_def
      messagesGenerator_yield_def waitForItems_messages_def messagesGenerator_finally_def
      onMessage_def onMessage_unsubscribe_def onEvent_def onEvent_unsubscribe_def Let_def
      split: prod.splits)

lemma closedWorld_fields:
  "isManualClose closedWorld" "timers closedWorld = []" "reconnectTimer closedWorld = None"
  "reconnectCount closedWorld = 0" "abortController closedWorld = None"
  "nextTimer closedWorld = 1" "now closedWorld = 0"
  by (simp_all add: closedWorld_def run_defs)

text \<open>
  Claim C3 fails on the code: \<^verbatim>\<open>connect\<close> does not look at \<open>isManualClose\<close>, and its
  \<^verbatim>\<open>catch\<close> branch calls \<^verbatim>\<open>scheduleReconnect\<close> whenever reconnection is enabled and attempts
  remain. After connect, open and \<^verbatim>\<open>close(1000, 'bye')\<close> no timeout is pending; a further
  \<^verbatim>\<open>connect()\<close> whose transport constructor throws emits a scheduling \<^verbatim>\<open>reconnect\<close> event
  and arms a retry timer, with \<open>isManualClose\<close> still set.
\<close>

theorem reconnect_after_close:
  "(let w' = connect defaultOptions (ConstructionThrew ''SyntaxError'') (1 / 2) closedWorld
    in isManualClose closedWorld \<and> timers closedWorld = [] \<and> reconnectTimer closedWorld = None
     \<and> isManualClose w' \<and> timers w' = [(1, Finite 1000)] \<and> reconnectTimer w' = Some 1
     \<and> last (eventQueue w') =
         \<lparr>ev_type = EvReconnect, ts = 0, meta = ReconnectMeta 1 (Some (Finite 1000))\<rparr>)"
proof -
  have i: "calculateReconnectInterval 0 (Finite 1000) Exponential (Finite 30000) (1 / 2) = Finite 1000"
    by (rule example_intervals)
  have o: "reconnect_enabled defaultOptions" "reconnect_attempts defaultOptions = \<infinity>"
    "reconnect_interval defaultOptions = Finite 1000" "reconnect_backoff defaultOptions = Exponential"
    "reconnect_maxInterval defaultOptions = Finite 30000"
    by (simp_all add: defaultOptions_def DEFAULT_RECONNECT_INTERVAL_def
        DEFAULT_MAX_RECONNECT_INTERVAL_def)
  have ok: "timers_ok (emit e closedWorld)" for e
    by (simp add: timers_ok_def closedWorld_fields emit_frame)
  show ?thesis
    by (simp add: connect_def Let_def closedWorld_fields o i emit_frame
        scheduleReconnect_unfold [OF ok] emit_last createEvent_def)
qed

section \<open>Flushing the send queue\<close>

text \<open>
  \<^verbatim>\<open>flushQueue\<close> changes nothing when there is no transport or the transport is not open.
  On an open transport it empties the queue and transmits, in queue order, the queued
  strings that are not empty, with one \<^verbatim>\<open>sent\<close> event for each transmitted string.
\<close>

lemma flushQueue_closed:
  "ws w = None \<or> (\<exists>h. ws w = Some h \<and> readyState (sockets w h) \<noteq> OPEN) \<Longrightarrow> flushQueue w = w"
  by (auto simp add: flushQueue_def)

lemma flushQueue_open:
  assumes "ws w = Some h" "readyState (sockets w h) = OPEN"
  shows "messageQueue (flushQueue w) = []"
    and "sentMessages (sockets (flushQueue w) h) =
           sentMessages (sockets w h) @ map WString (filter (\<lambda>m. m \<noteq> []) (messageQueue w))"
    and "eventCallbackCalls (flushQueue w) =
     eventCallbackCalls w @
       concat (map (\<lambda>m. map (\<lambda>cb. (cb, \<lparr>ev_type = EvSent, ts = now w, meta = SentMeta (OString m)\<rparr>))
                          (eventCallbacks w))
                   (filter (\<lambda>m. m \<noteq> []) (messageQueue w)))"
  using assms flushQueue_loop_effect [of h w] by (simp_all add: flushQueue_def)

lemma pendingWorld_fields:
  "ws pendingWorld = Some 0" "messageQueue pendingWorld = ['''', ''hi'']"
  "sentMessages (sockets pendingWorld 0) = []" "readyState (sockets pendingWorld 0) = CONNECTING"
  "eventCallbacks pendingWorld = []" "eventQueue pendingWorld = []"
  "activeEventIterators pendingWorld = 0" "nextSocket pendingWorld = 1" "now pendingWorld = 0"
  by (simp_all add: pendingWorld_def run_defs DEFAULT_BUFFER_SIZE_def)

text \<open>
  Claim C8 fails on the code for a queued empty string: the loop tests \<^verbatim>\<open>if (message)\<close>
  and the empty string is falsy, so it is shifted out of the queue and neither transmitted
  nor reported, whereas \<^verbatim>\<open>send('')\<close> on an open transport transmits it. With the empty
  string and \<^verbatim>\<open>'hi'\<close> queued while the transport was connecting, the open hook leaves the
  queue empty, one frame transmitted and one \<^verbatim>\<open>sent\<close> event.
\<close>

theorem flushQueue_skips_empty_string:
  "(let w = step exampleParse exampleStringify defaultOptions (TransportOpened 0) pendingWorld
    in messageQueue pendingWorld = ['''', ''hi'']
     \<and> enabled (TransportOpened 0) pendingWorld
     \<and> messageQueue w = []
     \<and> sentMessages (sockets w 0) = [WString ''hi'']
     \<and> eventQueue w = [\<lparr>ev_type = EvOpen, ts = 0, meta = NoMeta\<rparr>,
                        \<lparr>ev_type = EvSent, ts = 0, meta = SentMeta (OString ''hi'')\<rparr>])"
proof -
  let ?w1 = "emit \<lparr>ev_type = EvOpen, ts = 0, meta = NoMeta\<rparr>
               ((ws_set_readyState 0 OPEN pendingWorld)\<lparr>reconnectCount := 0\<rparr>)"
  have s: "onopen (ws_set_readyState 0 OPEN pendingWorld) = flushQueue_loop 0 ?w1"
    by (simp add: onopen_def Let_def createEvent_def flushQueue_def emit_frame
        ws_set_readyState_def pendingWorld_fields)
  have f: "messageQueue ?w1 = ['''', ''hi'']" "sentMessages (sockets ?w1 0) = []"
    "eventQueue ?w1 = [\<lparr>ev_type = EvOpen, ts = 0, meta = NoMeta\<rparr>]"
    "activeEventIterators ?w1 = 0" "now ?w1 = 0"
    by (simp_all add: emit_frame ws_set_readyState_def pendingWorld_fields
        emit_eventQueue_inactive MAX_RECENT_EVENTS_def)
  let ?w2 = "?w1\<lparr>messageQueue := [''hi'']\<rparr>"
  let ?w3 = "flushOne 0 ''hi'' (?w2\<lparr>messageQueue := []\<rparr>)"
  have "flushQueue_loop 0 ?w1 = flushQueue_loop 0 (flushOne 0 '''' ?w2)"
    by (rule flushQueue_loop_Cons) (simp add: f)
  also have "flushOne 0 '''' ?w2 = ?w2"
    by (simp add: flushOne_def)
  also have "flushQueue_loop 0 ?w2 = flushQueue_loop 0 ?w3"
    by (rule flushQueue_loop_Cons) simp
  also have "flushQueue_loop 0 ?w3 = ?w3"
    by (rule flushQueue_loop_Nil) (simp add: flushOne_messageQueue)
  finally have l: "flushQueue_loop 0 ?w1 = ?w3" .
  have "eventQueue ?w3 = eventQueue ?w1 @ [\<lparr>ev_type = EvSent, ts = 0, meta = SentMeta (OString ''hi'')\<rparr>]"
    using f(4,5)
    by (simp add: flushOne_def Let_def ws_send_def createEvent_def emit_eventQueue_inactive
        emit_frame MAX_RECENT_EVENTS_def ws_set_readyState_def pendingWorld_fields)
  then have q: "eventQueue (flushQueue_loop 0 ?w1) =
      [\<lparr>ev_type = EvOpen, ts = 0, meta = NoMeta\<rparr>,
       \<lparr>ev_type = EvSent, ts = 0, meta = SentMeta (OString ''hi'')\<rparr>]"
    by (simp only: l f(3)) simp
  show ?thesis
    using flushQueue_loop_effect [of 0 ?w1]
    by (simp add: s f q Let_def pendingWorld_fields)
qed

end
